theory Spec2Isabelle
  imports Main "HOL-Library.Multiset" "HOL-Library.Product_Lexorder"
    "HOL-Library.List_Lexorder" "HOL-Library.Char_ord"
begin

section \<open>JavaScript values\<close>

text \<open>
  The request bodies, query strings and column values the controller handles are
  JavaScript values. Numbers are the integers (the ids and counts this program stores);
  an object is its list of own properties, the effective binding of a name first.
\<close>

datatype jsval =
    JUndefined
  | JNull
  | JBool bool
  | JNum int
  | JStr string
  | JArr "jsval list"
  | JObj "(string \<times> jsval) list"

datatype error =
    Error string \<comment> \<open>\<open>throw new Error(msg)\<close>\<close>
  | TypeError \<comment> \<open>reading a property of \<open>null\<close> or \<open>undefined\<close>\<close>
  | SequelizeError \<comment> \<open>the store rejects a row (validation or constraint)\<close>

text \<open>\<open>ToBoolean\<close>, as \<open>if (v)\<close>, \<open>!v\<close> and \<open>v || w\<close> use it.\<close>

fun truthy :: "jsval \<Rightarrow> bool" where
  "truthy JUndefined = False"
| "truthy JNull = False"
| "truthy (JBool b) = b"
| "truthy (JNum n) = (n \<noteq> 0)"
| "truthy (JStr s) = (s \<noteq> [])"
| "truthy (JArr xs) = True"
| "truthy (JObj kvs) = True"

definition js_or :: "jsval \<Rightarrow> jsval \<Rightarrow> jsval" where
  "js_or a b = (if truthy a then a else b)"

fun isArray :: "jsval \<Rightarrow> bool" where
  "isArray (JArr xs) = True"
| "isArray v = False"

fun elements :: "jsval \<Rightarrow> jsval list" where
  "elements (JArr xs) = xs"
| "elements v = []"

text \<open>
  \<open>v.name\<close> for the property names this controller reads (\<open>uiName\<close>, \<open>language\<close>,
  \<open>code\<close>, ...): none of them is a built-in property of a string, an array or
  \<open>Object.prototype\<close>, so a value that is not an object with that own property gives
  \<open>undefined\<close>, and \<open>null\<close> and \<open>undefined\<close> throw.
\<close>

fun get_prop :: "jsval \<Rightarrow> string \<Rightarrow> jsval" where
  "get_prop (JObj kvs) k = (case map_of kvs k of None \<Rightarrow> JUndefined | Some v \<Rightarrow> v)"
| "get_prop v k = JUndefined"

fun member :: "jsval \<Rightarrow> string \<Rightarrow> error + jsval" where
  "member JUndefined k = Inl TypeError"
| "member JNull k = Inl TypeError"
| "member v k = Inr (get_prop v k)"

text \<open>The decimal digits, and the number a string of digits denotes.\<close>

definition is_digit :: "char \<Rightarrow> bool" where
  "is_digit c \<longleftrightarrow> 48 \<le> (of_char c :: nat) \<and> (of_char c :: nat) \<le> 57"

definition digits_value :: "string \<Rightarrow> nat" where
  "digits_value cs = foldl (\<lambda>a c. 10 * a + (of_char c - 48)) 0 cs"

section \<open>routes/docRoutes.js\<close>

datatype verb = GET | POST | PUT | DELETE

datatype segment = Lit string | Param string

text \<open>A handler is known by the name the controller defines it under.\<close>

type_synonym route = "verb \<times> segment list \<times> string"

text \<open>\<open>module.exports = { getDocs, ..., getUniqueSlugsWithCode }\<close> of the controller.\<close>

definition module_exports :: "string list" where
  "module_exports =
     [''getDocs'', ''getDocById'', ''createDoc'', ''updateDoc'', ''deleteDoc'',
      ''createVariant'', ''getDocByUniqueSlug'', ''getUniqueSlugsGrouped'',
      ''getUniqueSlugsWithCode'']"

text \<open>
  \<open>const { name } = require(...)\<close>: the exported function, or \<open>undefined\<close> (\<open>None\<close>)
  when the module exports nothing under that name.
\<close>

definition destructure :: "string list \<Rightarrow> string \<Rightarrow> string option" where
  "destructure exports name = (if name \<in> set exports then Some name else None)"

text \<open>
  \<open>router.METHOD(path, handler)\<close>: Express appends the route to the router's stack, and
  throws when the handler is not a function.
\<close>

definition router_add ::
  "route list \<Rightarrow> verb \<Rightarrow> segment list \<Rightarrow> string option \<Rightarrow> error + route list" where
  "router_add stack m path handler =
     (case handler of
        None \<Rightarrow> Inl (Error ''Route.get() requires a callback function but got a [object Undefined]'')
      | Some h \<Rightarrow> Inr (stack @ [(m, path, h)]))"

text \<open>The eight \<open>router.METHOD\<close> statements of the file, in their order.\<close>

definition route_statements :: "(verb \<times> segment list \<times> string) list" where
  "route_statements =
     [(GET, [], ''getDocs''),
      (GET, [Param ''id''], ''getDocById''),
      (POST, [Lit ''createDoc''], ''createDoc''),
      (PUT, [Lit ''updateDoc'', Param ''id''], ''updateDoc''),
      (DELETE, [Lit ''deleteDoc'', Param ''id''], ''deleteDoc''),
      (GET, [Lit ''getDocByUniqueSlug'', Param ''uniqueSlug''], ''getDocByUniqueSlug''),
      (GET, [Lit ''unique-slugs''], ''getUniqueSlugs''),
      (POST, [Lit ''createVariant'', Param ''id''], ''createVariant'')]"

fun run_statements ::
  "string list \<Rightarrow> (verb \<times> segment list \<times> string) list \<Rightarrow> route list \<Rightarrow> error + route list" where
  "run_statements exports [] stack = Inr stack"
| "run_statements exports ((m, path, name) # rest) stack =
     (case router_add stack m path (destructure exports name) of
        Inl e \<Rightarrow> Inl e
      | Inr stack' \<Rightarrow> run_statements exports rest stack')"

text \<open>The module: the router it exports, or the error loading it throws.\<close>

definition docRoutes :: "string list \<Rightarrow> error + route list" where
  "docRoutes exports = run_statements exports route_statements []"

text \<open>
  A path is its list of segments (\<open>/unique-slugs\<close> is \<open>[''unique-slugs'']\<close>). A literal
  segment matches itself whatever the case of its letters (\<open>express.Router()\<close> is not
  case sensitive), a parameter matches any one non-empty segment.
\<close>

definition ascii_lower :: "char \<Rightarrow> char" where
  "ascii_lower c =
     (case map_of (zip ''ABCDEFGHIJKLMNOPQRSTUVWXYZ'' ''abcdefghijklmnopqrstuvwxyz'') c of
        Some l \<Rightarrow> l
      | None \<Rightarrow> c)"

fun seg_matches :: "segment \<Rightarrow> string \<Rightarrow> bool" where
  "seg_matches (Lit l) s = (map ascii_lower l = map ascii_lower s)"
| "seg_matches (Param p) s = (s \<noteq> [])"

fun path_matches :: "segment list \<Rightarrow> string list \<Rightarrow> bool" where
  "path_matches [] [] = True"
| "path_matches (p # ps) (s # ss) = (seg_matches p s \<and> path_matches ps ss)"
| "path_matches ps ss = False"

text \<open>Express runs the first route of the stack whose verb and path match.\<close>

fun dispatch :: "route list \<Rightarrow> verb \<Rightarrow> string list \<Rightarrow> string option" where
  "dispatch [] m path = None"
| "dispatch ((m', pat, h) # rest) m path =
     (if m' = m \<and> path_matches pat path then Some h else dispatch rest m path)"

section \<open>The store behind the models\<close>

text \<open>
  Modelled from the spec: the three models of \<open>../models\<close> (Category, Code, Doc), which are
  not in the source tree. The attributes are those of the spec's data model. An attribute
  the controller fills from a request holds the JavaScript value it was given.
\<close>

record category_row =
  cat_id :: nat
  categoryName :: string
  slug :: string

record code_row =
  code_id :: nat
  language :: jsval
  code :: jsval
  docId :: nat

record doc_row =
  doc_id :: nat
  uiName :: jsval
  uiSubtitle :: jsval
  docs :: jsval
  uniqueSlug :: string
  categoryId :: jsval
  parentId :: jsval

text \<open>
  The tables hold their rows in insertion order; the two sequences are the next
  auto-increment keys.
\<close>

record store =
  doc_table :: "doc_row list"
  code_table :: "code_row list"
  category_table :: "category_row list"
  doc_seq :: nat
  code_seq :: nat

text \<open>
  Modelled from the spec: what the absent model definitions and the database decide,
  taken as parameters: which rows an insert or an update accepts (validators, NOT NULL,
  unique and foreign-key constraints), the hook that generates \<open>uniqueSlug\<close>, and
  whether \<open>ORDER BY ... ASC\<close> puts NULL first.
\<close>

record models =
  doc_accepted :: "store \<Rightarrow> doc_row \<Rightarrow> bool"
  update_accepted :: "store \<Rightarrow> doc_row \<Rightarrow> bool"
  code_accepted :: "store \<Rightarrow> code_row \<Rightarrow> bool"
  slug_hook :: "store \<Rightarrow> doc_row \<Rightarrow> string"
  nulls_first :: bool

text \<open>An attribute given as \<open>undefined\<close> is stored as NULL.\<close>

definition stored :: "jsval \<Rightarrow> jsval" where
  "stored v = (if v = JUndefined then JNull else v)"

text \<open>The key a foreign-key column refers to.\<close>

fun ref :: "jsval \<Rightarrow> nat option" where
  "ref (JNum n) = (if 0 \<le> n then Some (nat n) else None)"
| "ref v = None"

text \<open>
  Modelled from the spec: \<open>where: { categoryId: v }\<close> on the reference column
  \<open>categoryId\<close>, for a value \<open>v\<close> taken from the query string. A string of digits matches
  the key it denotes, a number matches itself, a list of values matches what one of its
  members matches (Sequelize issues \<open>IN\<close>), and nothing else matches a row; NULL is
  matched by no value.
\<close>

fun where_matches :: "jsval \<Rightarrow> jsval \<Rightarrow> bool" where
  "where_matches col (JStr cs) =
     (cs \<noteq> [] \<and> list_all is_digit cs \<and> col = JNum (int (digits_value cs)))"
| "where_matches col (JNum m) = (col = JNum m)"
| "where_matches col (JArr vs) = (\<exists>v \<in> set vs. where_matches col v)"
| "where_matches col v = False"

text \<open>
  \<open>Doc.create({uiName, uiSubtitle, docs, parentId, categoryId})\<close>: the row is built with
  the next key and the generated slug, and inserted when the store accepts it.
\<close>

definition Doc_build ::
  "models \<Rightarrow> store \<Rightarrow> jsval \<Rightarrow> jsval \<Rightarrow> jsval \<Rightarrow> jsval \<Rightarrow> jsval \<Rightarrow> doc_row" where
  "Doc_build M s name subtitle text parent category =
     (let r0 = \<lparr>doc_id = doc_seq s, uiName = stored name, uiSubtitle = stored subtitle,
                docs = stored text, uniqueSlug = [], categoryId = stored category,
                parentId = stored parent\<rparr>
      in r0\<lparr>uniqueSlug := slug_hook M s r0\<rparr>)"

definition Doc_create ::
  "models \<Rightarrow> store \<Rightarrow> jsval \<Rightarrow> jsval \<Rightarrow> jsval \<Rightarrow> jsval \<Rightarrow> jsval \<Rightarrow> error + doc_row \<times> store" where
  "Doc_create M s name subtitle text parent category =
     (let r = Doc_build M s name subtitle text parent category
      in if doc_accepted M s r
         then Inr (r, s\<lparr>doc_table := doc_table s @ [r], doc_seq := Suc (doc_seq s)\<rparr>)
         else Inl SequelizeError)"

text \<open>\<open>Code.create({language, code, docId})\<close>\<close>

definition Code_create ::
  "models \<Rightarrow> store \<Rightarrow> jsval \<Rightarrow> jsval \<Rightarrow> nat \<Rightarrow> error + store" where
  "Code_create M s lang src owner =
     (let r = \<lparr>code_id = code_seq s, language = stored lang, code = stored src,
               docId = owner\<rparr>
      in if code_accepted M s r
         then Inr (s\<lparr>code_table := code_table s @ [r], code_seq := Suc (code_seq s)\<rparr>)
         else Inl SequelizeError)"

text \<open>\<open>Doc.findByPk(id)\<close>\<close>

definition Doc_findByPk :: "store \<Rightarrow> nat \<Rightarrow> doc_row option" where
  "Doc_findByPk s k = find (\<lambda>d. doc_id d = k) (doc_table s)"

text \<open>
  \<open>doc.update({uiName, uiSubtitle, docs, categoryId})\<close>: Sequelize drops the attributes
  given as \<open>undefined\<close>, sets the others on the instance and saves them to the row of
  that key (\<open>UPDATE ... SET ... WHERE id = ...\<close>).
\<close>

definition assign :: "jsval \<Rightarrow> jsval \<Rightarrow> jsval" where
  "assign old new = (if new = JUndefined then old else new)"

definition Doc_update ::
  "models \<Rightarrow> store \<Rightarrow> doc_row \<Rightarrow> jsval \<Rightarrow> jsval \<Rightarrow> jsval \<Rightarrow> jsval \<Rightarrow> error + doc_row \<times> store" where
  "Doc_update M s doc name subtitle text category =
     (let doc' = doc\<lparr>uiName := assign (uiName doc) name,
                     uiSubtitle := assign (uiSubtitle doc) subtitle,
                     docs := assign (docs doc) text,
                     categoryId := assign (categoryId doc) category\<rparr>
      in if update_accepted M s doc'
         then Inr (doc', s\<lparr>doc_table :=
                map (\<lambda>d. if doc_id d = doc_id doc
                          then d\<lparr>uiName := uiName doc', uiSubtitle := uiSubtitle doc',
                                 docs := docs doc', categoryId := categoryId doc'\<rparr>
                          else d) (doc_table s)\<rparr>)
         else Inl SequelizeError)"

text \<open>\<open>Doc.findAll({where, order})\<close>: the rows the condition keeps, in ascending key order.\<close>

definition Doc_findAll :: "store \<Rightarrow> (doc_row \<Rightarrow> bool) \<Rightarrow> (doc_row \<Rightarrow> 'k::linorder) \<Rightarrow> doc_row list" where
  "Doc_findAll s cond key = sort_key key (filter cond (doc_table s))"

text \<open>The associations: \<open>codes\<close>, \<open>category\<close> and \<open>uiVariants\<close>.\<close>

definition codes_of :: "store \<Rightarrow> doc_row \<Rightarrow> code_row list" where
  "codes_of s d = filter (\<lambda>c. docId c = doc_id d) (code_table s)"

definition category_of :: "store \<Rightarrow> doc_row \<Rightarrow> category_row option" where
  "category_of s d =
     (case ref (categoryId d) of
        None \<Rightarrow> None
      | Some k \<Rightarrow> find (\<lambda>c. cat_id c = k) (category_table s))"

definition uiVariants_of :: "store \<Rightarrow> doc_row \<Rightarrow> doc_row list" where
  "uiVariants_of s d = filter (\<lambda>v. ref (parentId v) = Some (doc_id d)) (doc_table s)"

text \<open>
  The store is consistent when the doc keys are distinct and below the next key, and
  every code row is owned by a key already given out.
\<close>

definition wf_store :: "store \<Rightarrow> bool" where
  "wf_store s \<longleftrightarrow>
     distinct (map doc_id (doc_table s))
     \<and> list_all (\<lambda>d. doc_id d < doc_seq s) (doc_table s)
     \<and> list_all (\<lambda>c. docId c < doc_seq s) (code_table s)"

section \<open>controllers/docController.js\<close>

text \<open>The JSON bodies the handlers send.\<close>

record variant_view =
  v_doc :: doc_row
  v_codes :: "code_row list"

record doc_view =
  d_doc :: doc_row
  d_codes :: "code_row list"
  d_category :: "(string \<times> string) option" \<comment> \<open>\<open>categoryName\<close>, \<open>slug\<close>\<close>

record full_view =
  f_doc :: doc_row
  f_codes :: "code_row list"
  f_category :: "(string \<times> string) option"
  f_uiVariants :: "variant_view list"

record slug_view =
  sv_id :: nat
  sv_uiName :: jsval
  sv_uniqueSlug :: string
  sv_categoryId :: jsval
  sv_category :: "category_row option"

record slug_code_view = slug_view +
  sv_codes :: "(nat \<times> jsval \<times> jsval) list" \<comment> \<open>\<open>id\<close>, \<open>language\<close>, \<open>code\<close>\<close>

text \<open>A category id is a number read from the table, or the string of the default group.\<close>

datatype js_id = IdNum nat | IdStr string

record group_category =
  gc_id :: js_id
  gc_categoryName :: string
  gc_slug :: string

record child =
  ch_id :: nat
  ch_uiName :: jsval
  ch_uniqueSlug :: string
  ch_categoryId :: jsval

record bucket =
  category :: group_category
  children :: "child list"

datatype body =
    Message string
  | Null
  | DocJson doc_row
  | DocWithCodes doc_view
  | FullDoc full_view
  | FullDocs "full_view list"
  | Buckets "bucket list"
  | SlugDocs "slug_code_view list"

text \<open>\<open>res.status(n).json(b)\<close>, or \<open>next(error)\<close>.\<close>

datatype response = Response nat body | Next error

text \<open>
  \<open>req.body\<close> as the JSON body parser leaves it: the properties of the parsed object
  (none when the request has no body).
\<close>

type_synonym request_body = "(string \<times> jsval) list"

definition field :: "request_body \<Rightarrow> string \<Rightarrow> jsval" where
  "field b k = get_prop (JObj b) k"

text \<open>The \<open>include\<close> lists of the queries.\<close>

definition category_attrs :: "store \<Rightarrow> doc_row \<Rightarrow> (string \<times> string) option" where
  "category_attrs s d = map_option (\<lambda>c. (categoryName c, slug c)) (category_of s d)"

definition with_codes :: "store \<Rightarrow> doc_row \<Rightarrow> doc_view" where
  "with_codes s d = \<lparr>d_doc = d, d_codes = codes_of s d, d_category = category_attrs s d\<rparr>"

definition with_variants :: "store \<Rightarrow> doc_row \<Rightarrow> full_view" where
  "with_variants s d =
     \<lparr>f_doc = d, f_codes = codes_of s d, f_category = category_attrs s d,
      f_uiVariants = map (\<lambda>v. \<lparr>v_doc = v, v_codes = codes_of s v\<rparr>) (uiVariants_of s d)\<rparr>"

definition getDocs :: "store \<Rightarrow> response" where
  "getDocs s =
     Response 200 (FullDocs (map (with_variants s)
       (Doc_findAll s (\<lambda>d. parentId d = JNull) doc_id)))"

text \<open>The route parameter \<open>req.params.id\<close> is the key \<open>k\<close> it denotes.\<close>

definition getDocById :: "store \<Rightarrow> nat \<Rightarrow> response" where
  "getDocById s k =
     (case Doc_findByPk s k of
        None \<Rightarrow> Response 404 (Message ''Doc not found'')
      | Some doc \<Rightarrow> Response 200 (FullDoc (with_variants s doc)))"

text \<open>
  The loop over \<open>codes\<close>: each entry's \<open>language\<close> and \<open>code\<close> are read, then the row is
  created. An error leaves the rows created so far in the store.
\<close>

fun create_codes :: "models \<Rightarrow> store \<Rightarrow> jsval list \<Rightarrow> nat \<Rightarrow> error option \<times> store" where
  "create_codes M s [] owner = (None, s)"
| "create_codes M s (codeEntry # rest) owner =
     (case member codeEntry ''language'' of
        Inl e \<Rightarrow> (Some e, s)
      | Inr lang \<Rightarrow>
          (case member codeEntry ''code'' of
             Inl e \<Rightarrow> (Some e, s)
           | Inr src \<Rightarrow>
               (case Code_create M s lang src owner of
                  Inl e \<Rightarrow> (Some e, s)
                | Inr s' \<Rightarrow> create_codes M s' rest owner)))"

text \<open>The tail both creating handlers share: the snippets, then the re-fetch.\<close>

definition create_snippets_and_fetch ::
  "models \<Rightarrow> store \<Rightarrow> jsval \<Rightarrow> nat \<Rightarrow> response \<times> store" where
  "create_snippets_and_fetch M s codes k =
     (case (if isArray codes then create_codes M s (elements codes) k else (None, s)) of
        (Some e, s') \<Rightarrow> (Next e, s')
      | (None, s') \<Rightarrow>
          (case Doc_findByPk s' k of
             None \<Rightarrow> (Response 201 Null, s')
           | Some created \<Rightarrow> (Response 201 (DocWithCodes (with_codes s' created)), s')))"

definition createDoc :: "models \<Rightarrow> store \<Rightarrow> request_body \<Rightarrow> response \<times> store" where
  "createDoc M s b =
     (let uiName = field b ''uiName''; uiSubtitle = field b ''uiSubtitle'';
          docs = field b ''docs''; codes = field b ''codes'';
          parentId = field b ''parentId''; categoryId = field b ''categoryId''
      in case Doc_create M s uiName uiSubtitle docs (js_or parentId JNull) categoryId of
           Inl e \<Rightarrow> (Next e, s)
         | Inr (newDoc, s1) \<Rightarrow> create_snippets_and_fetch M s1 codes (doc_id newDoc))"

definition updateDoc :: "models \<Rightarrow> store \<Rightarrow> nat \<Rightarrow> request_body \<Rightarrow> response \<times> store" where
  "updateDoc M s k b =
     (let uiName = field b ''uiName''; uiSubtitle = field b ''uiSubtitle'';
          docs = field b ''docs''; categoryId = field b ''categoryId''
      in case Doc_findByPk s k of
           None \<Rightarrow> (Response 404 (Message ''Doc not found''), s)
         | Some doc \<Rightarrow>
             (case Doc_update M s doc uiName uiSubtitle docs categoryId of
                Inl e \<Rightarrow> (Next e, s)
              | Inr (doc', s') \<Rightarrow> (Response 200 (DocJson doc'), s')))"

definition createVariant :: "models \<Rightarrow> store \<Rightarrow> nat \<Rightarrow> request_body \<Rightarrow> response \<times> store" where
  "createVariant M s k b =
     (let parentId = JNum (int k);
          uiName = field b ''uiName''; uiSubtitle = field b ''uiSubtitle'';
          docs = field b ''docs''; codes = field b ''codes'';
          categoryId = field b ''categoryId''
      in case Doc_findByPk s k of
           None \<Rightarrow> (Response 404 (Message ''Parent doc not found''), s)
         | Some parentDoc \<Rightarrow>
             (case Doc_create M s uiName uiSubtitle docs parentId categoryId of
                Inl e \<Rightarrow> (Next e, s)
              | Inr (variant, s1) \<Rightarrow> create_snippets_and_fetch M s1 codes (doc_id variant)))"

subsection \<open>Plain objects used as dictionaries\<close>

text \<open>
  A property key is an array index (the canonical decimal string of a number below
  \<open>2^32 - 1\<close>) or any other string. An object keeps its own properties in creation order,
  and \<open>Object.values\<close> lists the array-index keys first, in ascending numeric order, then
  the other string keys in creation order.
\<close>

datatype prop_key = Index nat | Name string

type_synonym 'a js_object = "(prop_key \<times> 'a) list"

definition digit_char :: "nat \<Rightarrow> char" where
  "digit_char n = ''0123456789'' ! n"

fun decimal :: "nat \<Rightarrow> string" where
  "decimal n = (if n < 10 then [digit_char n] else decimal (n div 10) @ [digit_char (n mod 10)])"

declare decimal.simps [simp del]

definition array_index :: "string \<Rightarrow> nat option" where
  "array_index cs =
     (if cs \<noteq> [] \<and> list_all is_digit cs \<and> decimal (digits_value cs) = cs
         \<and> digits_value cs < 4294967295
      then Some (digits_value cs) else None)"

text \<open>
  \<open>ToPropertyKey\<close> of a category id: the number's string (its decimal digits, for the
  keys a table gives out), or the string itself.
\<close>

fun ToPropertyKey :: "js_id \<Rightarrow> prop_key" where
  "ToPropertyKey (IdNum n) = (if n < 4294967295 then Index n else Name (decimal n))"
| "ToPropertyKey (IdStr cs) = (case array_index cs of Some n \<Rightarrow> Index n | None \<Rightarrow> Name cs)"

text \<open>\<open>acc[k]\<close>, \<open>acc[k] = v\<close> on a key not yet present, and a mutation of \<open>acc[k]\<close>.\<close>

definition obj_get :: "'a js_object \<Rightarrow> prop_key \<Rightarrow> 'a option" where
  "obj_get obj k = map_of obj k"

definition obj_add :: "'a js_object \<Rightarrow> prop_key \<Rightarrow> 'a \<Rightarrow> 'a js_object" where
  "obj_add obj k v = obj @ [(k, v)]"

definition obj_modify :: "'a js_object \<Rightarrow> prop_key \<Rightarrow> ('a \<Rightarrow> 'a) \<Rightarrow> 'a js_object" where
  "obj_modify obj k f = map (\<lambda>(k', v). if k' = k then (k', f v) else (k', v)) obj"

fun index_of :: "prop_key \<Rightarrow> nat option" where
  "index_of (Index n) = Some n"
| "index_of (Name cs) = None"

definition index_entries :: "'a js_object \<Rightarrow> (nat \<times> 'a) list" where
  "index_entries obj =
     concat (map (\<lambda>(k, v). case index_of k of Some n \<Rightarrow> [(n, v)] | None \<Rightarrow> []) obj)"

definition name_entries :: "'a js_object \<Rightarrow> 'a list" where
  "name_entries obj =
     concat (map (\<lambda>(k, v). case index_of k of Some n \<Rightarrow> [] | None \<Rightarrow> [v]) obj)"

definition Object_values :: "'a js_object \<Rightarrow> 'a list" where
  "Object_values obj = map snd (sort_key fst (index_entries obj)) @ name_entries obj"

subsection \<open>The two slug listings\<close>

text \<open>
  \<open>ORDER BY\<close> keys: NULL is ranked before or after every value, as the database does.
  Category names are compared character by character.
\<close>

definition null_rank :: "models \<Rightarrow> nat" where
  "null_rank M = (if nulls_first M then 0 else 2)"

definition categoryName_key :: "models \<Rightarrow> category_row option \<Rightarrow> nat \<times> string" where
  "categoryName_key M c =
     (case c of None \<Rightarrow> (null_rank M, []) | Some c' \<Rightarrow> (1, categoryName c'))"

fun categoryId_key :: "models \<Rightarrow> jsval \<Rightarrow> nat \<times> int" where
  "categoryId_key M (JNum n) = (1, n)"
| "categoryId_key M v = (null_rank M, 0)"

text \<open>
  The order the listing by \<open>categoryId\<close> is to have, said without the sort key: of two
  rows, the earlier has the smaller number; a row whose \<open>categoryId\<close> is not a number
  (NULL) comes before every numbered row when NULL sorts first, after every one otherwise.
\<close>

fun number_of :: "jsval \<Rightarrow> int option" where
  "number_of (JNum n) = Some n"
| "number_of v = None"

definition categoryId_ascending :: "bool \<Rightarrow> jsval \<Rightarrow> jsval \<Rightarrow> bool" where
  "categoryId_ascending nf u v =
     (case number_of u of
        Some a \<Rightarrow> (case number_of v of Some b \<Rightarrow> a \<le> b | None \<Rightarrow> \<not> nf)
      | None \<Rightarrow> (case number_of v of Some b \<Rightarrow> nf | None \<Rightarrow> True))"

definition slug_attrs :: "store \<Rightarrow> doc_row \<Rightarrow> slug_view" where
  "slug_attrs s d =
     \<lparr>sv_id = doc_id d, sv_uiName = uiName d, sv_uniqueSlug = uniqueSlug d,
      sv_categoryId = categoryId d, sv_category = category_of s d\<rparr>"

definition uncategorized :: group_category where
  "uncategorized = \<lparr>gc_id = IdStr ''0'', gc_categoryName = ''Uncategorized'',
                    gc_slug = ''uncategorized''\<rparr>"

text \<open>The callback of \<open>docs.reduce\<close>.\<close>

definition group_step :: "bucket js_object \<Rightarrow> slug_view \<Rightarrow> bucket js_object" where
  "group_step acc docObj =
     (let cat = (case sv_category docObj of
                   Some c \<Rightarrow> \<lparr>gc_id = IdNum (cat_id c), gc_categoryName = categoryName c,
                              gc_slug = slug c\<rparr>
                 | None \<Rightarrow> uncategorized);
          k = ToPropertyKey (gc_id cat);
          acc1 = (case obj_get acc k of
                    None \<Rightarrow> obj_add acc k \<lparr>category = cat, children = []\<rparr>
                  | Some b \<Rightarrow> acc)
      in obj_modify acc1 k (\<lambda>b. b\<lparr>children := children b @
           [\<lparr>ch_id = sv_id docObj, ch_uiName = sv_uiName docObj,
             ch_uniqueSlug = sv_uniqueSlug docObj, ch_categoryId = sv_categoryId docObj\<rparr>]\<rparr>))"

definition grouped_docs :: "models \<Rightarrow> store \<Rightarrow> slug_view list" where
  "grouped_docs M s =
     map (slug_attrs s)
       (Doc_findAll s (\<lambda>d. parentId d = JNull) (\<lambda>d. categoryName_key M (category_of s d)))"

definition getUniqueSlugsGrouped :: "models \<Rightarrow> store \<Rightarrow> response" where
  "getUniqueSlugsGrouped M s =
     (let docs = grouped_docs M s;
          grouped = foldl group_step [] docs;
          result = Object_values grouped
      in Response 200 (Buckets result))"

definition tailwind_codes :: "store \<Rightarrow> doc_row \<Rightarrow> (nat \<times> jsval \<times> jsval) list" where
  "tailwind_codes s d =
     map (\<lambda>c. (code_id c, language c, code c))
       (filter (\<lambda>c. language c = JStr ''tailwind'') (codes_of s d))"

definition slug_code_attrs :: "store \<Rightarrow> doc_row \<Rightarrow> slug_code_view" where
  "slug_code_attrs s d =
     \<lparr>sv_id = doc_id d, sv_uiName = uiName d, sv_uniqueSlug = uniqueSlug d,
      sv_categoryId = categoryId d, sv_category = category_of s d,
      sv_codes = tailwind_codes s d\<rparr>"

text \<open>
  \<open>q\<close> is \<open>req.query.categoryId\<close>: \<open>undefined\<close>, or the value parsed from the query string.
\<close>

definition condition :: "jsval \<Rightarrow> doc_row \<Rightarrow> bool" where
  "condition q d \<longleftrightarrow>
     parentId d = JNull \<and> (if truthy q then where_matches (categoryId d) q else True)"

definition getUniqueSlugsWithCode :: "models \<Rightarrow> store \<Rightarrow> jsval \<Rightarrow> response" where
  "getUniqueSlugsWithCode M s q =
     Response 200 (SlugDocs (map (slug_code_attrs s)
       (Doc_findAll s (condition q) (\<lambda>d. categoryId_key M (categoryId d)))))"

section \<open>Example data\<close>

text \<open>
  Modelled from the spec: the constraints of the absent models, as the spec's data model
  states them. A doc's \<open>parentId\<close> and \<open>categoryId\<close> are nullable references (deleting
  a doc cascades to its variants and codes), a code is owned by a doc, and a slug is
  unique. The slug is taken from the name and NULL sorts first. The store holds three
  main docs in two categories, one of them uncategorised, and one variant.
\<close>

definition refers_to_doc :: "store \<Rightarrow> jsval \<Rightarrow> bool" where
  "refers_to_doc s v = list_ex (\<lambda>d. ref v = Some (doc_id d)) (doc_table s)"

definition refers_to_category :: "store \<Rightarrow> jsval \<Rightarrow> bool" where
  "refers_to_category s v = list_ex (\<lambda>c. ref v = Some (cat_id c)) (category_table s)"

definition example_models :: models where
  "example_models =
     \<lparr>doc_accepted = (\<lambda>s r. (parentId r = JNull \<or> refers_to_doc s (parentId r))
                            \<and> (categoryId r = JNull \<or> refers_to_category s (categoryId r))
                            \<and> list_all (\<lambda>d. uniqueSlug d \<noteq> uniqueSlug r) (doc_table s)),
      update_accepted = (\<lambda>s r. categoryId r = JNull \<or> refers_to_category s (categoryId r)),
      code_accepted = (\<lambda>s r. list_ex (\<lambda>d. doc_id d = docId r) (doc_table s)),
      slug_hook = (\<lambda>s r. case uiName r of JStr n \<Rightarrow> n | _ \<Rightarrow> []),
      nulls_first = True\<rparr>"

definition example_store :: store where
  "example_store =
     \<lparr>doc_table =
        [\<lparr>doc_id = 1, uiName = JStr ''Button'', uiSubtitle = JNull, docs = JNull,
          uniqueSlug = ''Button'', categoryId = JNum 1, parentId = JNull\<rparr>,
         \<lparr>doc_id = 2, uiName = JStr ''Card'', uiSubtitle = JNull, docs = JNull,
          uniqueSlug = ''Card'', categoryId = JNum 2, parentId = JNull\<rparr>,
         \<lparr>doc_id = 3, uiName = JStr ''Misc'', uiSubtitle = JNull, docs = JNull,
          uniqueSlug = ''Misc'', categoryId = JNull, parentId = JNull\<rparr>,
         \<lparr>doc_id = 4, uiName = JStr ''Ghost'', uiSubtitle = JNull, docs = JNull,
          uniqueSlug = ''Ghost'', categoryId = JNum 1, parentId = JNum 1\<rparr>],
      code_table =
        [\<lparr>code_id = 1, language = JStr ''jsx'', code = JStr ''a'', docId = 1\<rparr>,
         \<lparr>code_id = 2, language = JStr ''tailwind'', code = JStr ''b'', docId = 1\<rparr>,
         \<lparr>code_id = 3, language = JStr ''css'', code = JStr ''c'', docId = 4\<rparr>],
      category_table =
        [\<lparr>cat_id = 1, categoryName = ''Zeta'', slug = ''zeta''\<rparr>,
         \<lparr>cat_id = 2, categoryName = ''Alpha'', slug = ''alpha''\<rparr>],
      doc_seq = 5, code_seq = 4\<rparr>"

definition example_body :: request_body where
  "example_body =
     [(''uiName'', JStr ''Badge''), (''uiSubtitle'', JStr ''Small''), (''docs'', JStr ''text''),
      (''categoryId'', JNum 2), (''parentId'', JNum 0),
      (''codes'', JArr [JObj [(''language'', JStr ''jsx''), (''code'', JStr ''x'')],
                       JObj [(''language'', JStr ''css''), (''code'', JStr ''y'')]])]"

text \<open>A request naming a parent that the example store does not hold.\<close>

definition dangling_body :: request_body where
  "dangling_body = [(''uiName'', JStr ''Orphan''), (''parentId'', JNum 7)]"

text \<open>A request for a variant that carries a \<open>parentId\<close> of its own.\<close>

definition variant_body :: request_body where
  "variant_body =
     [(''uiName'', JStr ''Flat''), (''parentId'', JNum 77),
      (''codes'', JArr [JObj [(''language'', JStr ''css''), (''code'', JStr ''z'')]])]"

section \<open>Facts about the store operations\<close>

lemma wf_example: "wf_store example_store"
  by (simp add: wf_store_def example_store_def)

lemmas eval_defs = createDoc_def createVariant_def updateDoc_def field_def Doc_create_def Doc_build_def
  Doc_update_def assign_def
  create_snippets_and_fetch_def Code_create_def Doc_findByPk_def with_codes_def codes_of_def
  category_attrs_def category_of_def stored_def js_or_def example_models_def example_store_def
  refers_to_doc_def refers_to_category_def
  example_body_def Let_def

lemma ex1: "\<exists>r s'. createDoc example_models example_store example_body = (Response 201 r, s')"
  by (simp add: eval_defs)

lemma stored_supplied: "v \<noteq> JUndefined \<Longrightarrow> stored v = v"
  by (simp add: stored_def)

lemma member_Inr: "member e k = Inr v \<Longrightarrow> v = get_prop e k"
  by (cases e) auto

lemma Code_create_Inr:
  "Code_create M s l c k = Inr s' \<Longrightarrow>
     s' = s\<lparr>code_table := code_table s @ [\<lparr>code_id = code_seq s, language = stored l, code = stored c, docId = k\<rparr>],
            code_seq := Suc (code_seq s)\<rparr>"
  by (auto simp: Code_create_def Let_def split: if_splits)

lemma create_codes_frame:
  "create_codes M s es k = (r, s') \<Longrightarrow>
     doc_table s' = doc_table s \<and> doc_seq s' = doc_seq s \<and> category_table s' = category_table s
     \<and> (\<exists>new. code_table s' = code_table s @ new \<and> list_all (\<lambda>c. docId c = k) new)"
proof (induction es arbitrary: s)
  case Nil
  then show ?case by simp
next
  case (Cons e es)
  show ?case
  proof (cases "member e ''language''")
    case (Inl a)
    with Cons.prems show ?thesis by simp
  next
    case l: (Inr l)
    show ?thesis
    proof (cases "member e ''code''")
      case (Inl a)
      with l Cons.prems show ?thesis by simp
    next
      case c: (Inr c)
      show ?thesis
      proof (cases "Code_create M s l c k")
        case (Inl a)
        with l c Cons.prems show ?thesis by simp
      next
        case (Inr s1)
        with l c Cons.prems have "create_codes M s1 es k = (r, s')" by simp
        from Cons.IH[OF this] Code_create_Inr[OF Inr] show ?thesis by auto
      qed
    qed
  qed
qed

lemma create_codes_ok:
  "create_codes M s es k = (None, s') \<Longrightarrow>
     \<exists>new. code_table s' = code_table s @ new
       \<and> map (\<lambda>c. (language c, code c, docId c)) new
         = map (\<lambda>e. (stored (get_prop e ''language''), stored (get_prop e ''code''), k)) es"
proof (induction es arbitrary: s)
  case Nil
  then show ?case by simp
next
  case (Cons e es)
  from Cons.prems obtain l where l: "member e ''language'' = Inr l"
    by (cases "member e ''language''") auto
  from Cons.prems l obtain c where c: "member e ''code'' = Inr c"
    by (cases "member e ''code''") auto
  from Cons.prems l c obtain s1 where s1: "Code_create M s l c k = Inr s1"
    by (cases "Code_create M s l c k") auto
  with l c Cons.prems have "create_codes M s1 es k = (None, s')" by simp
  from Cons.IH[OF this] obtain new where
    new: "code_table s' = code_table s1 @ new"
      "map (\<lambda>c. (language c, code c, docId c)) new
         = map (\<lambda>e. (stored (get_prop e ''language''), stored (get_prop e ''code''), k)) es"
    by blast
  let ?r = "\<lparr>code_id = code_seq s, language = stored l, code = stored c, docId = k\<rparr>"
  from Code_create_Inr[OF s1] new(1) have "code_table s' = code_table s @ (?r # new)" by simp
  moreover have "l = get_prop e ''language''" "c = get_prop e ''code''"
    using l c by (auto dest: member_Inr)
  ultimately show ?case using new(2) by (intro exI[of _ "?r # new"]) simp
qed

lemma find_append_fresh:
  "list_all (\<lambda>d. doc_id d \<noteq> doc_id r) ds \<Longrightarrow> find (\<lambda>d. doc_id d = doc_id r) (ds @ [r]) = Some r"
  by (induction ds) auto

lemma filter_owner_fresh:
  "list_all (\<lambda>c. docId c < k) cs \<Longrightarrow> filter (\<lambda>c. docId c = k) cs = []"
  by (induction cs) auto


lemma Doc_create_Inr:
  "Doc_create M s a1 a2 a3 a4 a5 = Inr (r, s1) \<Longrightarrow>
     r = Doc_build M s a1 a2 a3 a4 a5 \<and> doc_accepted M s r
     \<and> s1 = s\<lparr>doc_table := doc_table s @ [r], doc_seq := Suc (doc_seq s)\<rparr>"
  by (auto simp: Doc_create_def Let_def split: if_splits)

lemma Doc_build_fields:
  "doc_id (Doc_build M s a1 a2 a3 a4 a5) = doc_seq s"
  "uiName (Doc_build M s a1 a2 a3 a4 a5) = stored a1"
  "uiSubtitle (Doc_build M s a1 a2 a3 a4 a5) = stored a2"
  "docs (Doc_build M s a1 a2 a3 a4 a5) = stored a3"
  "parentId (Doc_build M s a1 a2 a3 a4 a5) = stored a4"
  "categoryId (Doc_build M s a1 a2 a3 a4 a5) = stored a5"
  by (simp_all add: Doc_build_def)

lemma list_all_less_neq: "list_all (\<lambda>d. doc_id d < k) ds \<Longrightarrow> list_all (\<lambda>d. doc_id d \<noteq> k) ds"
  by (induction ds) auto

lemma filter_owner_new:
  "list_all (\<lambda>c. docId c = k) new \<Longrightarrow> filter (\<lambda>c. docId c = k) new = new"
  by (induction new) auto

lemma fetch_after_create:
  assumes wf: "wf_store s"
    and cr: "Doc_create M s a1 a2 a3 a4 a5 = Inr (r, s1)"
    and fe: "create_snippets_and_fetch M s1 codes (doc_id r) = (Response 201 body, s')"
  shows "\<exists>new. body = DocWithCodes \<lparr>d_doc = r, d_codes = new, d_category = category_attrs s' r\<rparr>
           \<and> doc_table s' = doc_table s @ [r]
           \<and> code_table s' = code_table s @ new
           \<and> codes_of s' r = new
           \<and> Doc_findByPk s' (doc_id r) = Some r
           \<and> map (\<lambda>c. (language c, code c)) new
               = map (\<lambda>e. (stored (get_prop e ''language''), stored (get_prop e ''code'')))
                   (elements codes)"
proof -
  from Doc_create_Inr[OF cr] have r: "doc_id r = doc_seq s"
    and s1: "doc_table s1 = doc_table s @ [r]" "code_table s1 = code_table s"
    by (simp_all add: Doc_build_fields)
  define res where "res = (if isArray codes then create_codes M s1 (elements codes) (doc_id r) else (None, s1))"
  from fe have res: "res = (None, s')"
    by (auto simp: create_snippets_and_fetch_def res_def[symmetric] split: prod.splits option.splits)
  have "\<exists>new. doc_table s' = doc_table s1 \<and> code_table s' = code_table s1 @ new
         \<and> list_all (\<lambda>c. docId c = doc_id r) new
         \<and> map (\<lambda>c. (language c, code c)) new
               = map (\<lambda>e. (stored (get_prop e ''language''), stored (get_prop e ''code'')))
                   (elements codes)"
  proof (cases "isArray codes")
    case True
    with res have cc: "create_codes M s1 (elements codes) (doc_id r) = (None, s')"
      by (simp add: res_def)
    from create_codes_ok[OF cc] obtain new where
      n1: "code_table s' = code_table s1 @ new"
      and n2: "map (\<lambda>c. (language c, code c, docId c)) new
         = map (\<lambda>e. (stored (get_prop e ''language''), stored (get_prop e ''code''), doc_id r))
             (elements codes)"
      by blast
    from n2 have "map (\<lambda>t. (fst t, fst (snd t))) (map (\<lambda>c. (language c, code c, docId c)) new)
         = map (\<lambda>t. (fst t, fst (snd t)))
             (map (\<lambda>e. (stored (get_prop e ''language''), stored (get_prop e ''code''), doc_id r))
               (elements codes))"
      by simp
    then have "map (\<lambda>c. (language c, code c)) new
         = map (\<lambda>e. (stored (get_prop e ''language''), stored (get_prop e ''code'')))
             (elements codes)"
      by (simp add: o_def)
    moreover from create_codes_frame[OF cc] n1 have "list_all (\<lambda>c. docId c = doc_id r) new"
      by auto
    moreover from create_codes_frame[OF cc] have "doc_table s' = doc_table s1" by simp
    ultimately show ?thesis using n1 by blast
  next
    case False
    with res have "s' = s1" by (simp add: res_def)
    moreover from False have "elements codes = []" by (cases codes) auto
    ultimately show ?thesis by simp
  qed
  then obtain new where new: "doc_table s' = doc_table s1" "code_table s' = code_table s1 @ new"
     "list_all (\<lambda>c. docId c = doc_id r) new"
     "map (\<lambda>c. (language c, code c)) new
               = map (\<lambda>e. (stored (get_prop e ''language''), stored (get_prop e ''code'')))
                   (elements codes)"
    by blast
  from wf r have "list_all (\<lambda>d. doc_id d \<noteq> doc_id r) (doc_table s)"
    by (simp add: wf_store_def list_all_less_neq)
  then have fnd: "Doc_findByPk s' (doc_id r) = Some r"
    using new(1) s1(1) by (simp add: Doc_findByPk_def find_append_fresh)
  from wf r have "filter (\<lambda>c. docId c = doc_id r) (code_table s) = []"
    by (simp add: wf_store_def filter_owner_fresh)
  then have co: "codes_of s' r = new"
    using new(2,3) s1(2) by (simp add: codes_of_def filter_owner_new)
  from fe res fnd have "body = DocWithCodes (with_codes s' r)"
    by (auto simp: create_snippets_and_fetch_def res_def[symmetric])
  then show ?thesis using new s1 co fnd by (simp add: with_codes_def)
qed

lemma Doc_update_frame:
  "Doc_update M s d a1 a2 a3 a4 = Inr (d', s') \<Longrightarrow>
     map (\<lambda>d. (doc_id d, parentId d, uniqueSlug d)) (doc_table s')
       = map (\<lambda>d. (doc_id d, parentId d, uniqueSlug d)) (doc_table s)
     \<and> code_table s' = code_table s \<and> category_table s' = category_table s
     \<and> d' = d\<lparr>uiName := assign (uiName d) a1, uiSubtitle := assign (uiSubtitle d) a2,
               docs := assign (docs d) a3, categoryId := assign (categoryId d) a4\<rparr>"
  by (auto simp: Doc_update_def Let_def split: if_splits)

lemma fetch_keeps_docs:
  "create_snippets_and_fetch M s codes k = (res, s') \<Longrightarrow> doc_table s' = doc_table s"
proof (cases "isArray codes")
  case True
  assume a: "create_snippets_and_fetch M s codes k = (res, s')"
  obtain e s2 where cc: "create_codes M s (elements codes) k = (e, s2)"
    by (cases "create_codes M s (elements codes) k")
  with a True have "s' = s2"
    by (auto simp: create_snippets_and_fetch_def split: option.splits)
  with create_codes_frame[OF cc] show ?thesis by simp
next
  case False
  assume "create_snippets_and_fetch M s codes k = (res, s')"
  with False show ?thesis
    by (auto simp: create_snippets_and_fetch_def split: option.splits)
qed

lemma stored_js_or:
  "stored (js_or p JNull) = (if truthy p then p else JNull)"
  by (cases p) (simp_all add: stored_def js_or_def)

lemma findAll_mset: "mset (Doc_findAll s cond key) = mset (filter cond (doc_table s))"
  by (simp add: Doc_findAll_def)

lemma findAll_sorted: "sorted (map key (Doc_findAll s cond key))"
  by (simp add: Doc_findAll_def)

lemma sorted_mset_unique:
  fixes xs :: "nat list"
  assumes "mset xs = mset ys" and "sorted xs"
  shows "xs = sort ys"
  using assms by (metis properties_for_sort)

lemma findAll_set: "set (Doc_findAll s cond key) = {d \<in> set (doc_table s). cond d}"
  by (simp add: Doc_findAll_def)

lemma mset_map_cong: "mset xs = mset ys \<Longrightarrow> mset (map f xs) = mset (map f ys)"
  by simp

lemma categoryId_key_ascending:
  "categoryId_key M u \<le> categoryId_key M v \<Longrightarrow> categoryId_ascending (nulls_first M) u v"
  by (cases u; cases v) (auto simp: categoryId_ascending_def null_rank_def split: if_splits)

lemma findAll_categoryId_ascending:
  "sorted_wrt (\<lambda>x y. categoryId_ascending (nulls_first M) (categoryId x) (categoryId y))
     (Doc_findAll s cond (\<lambda>d. categoryId_key M (categoryId d)))"
proof -
  have "sorted (map (\<lambda>d. categoryId_key M (categoryId d))
          (Doc_findAll s cond (\<lambda>d. categoryId_key M (categoryId d))))"
    by (rule findAll_sorted)
  then have "sorted_wrt (\<lambda>x y. categoryId_key M (categoryId x) \<le> categoryId_key M (categoryId y))
          (Doc_findAll s cond (\<lambda>d. categoryId_key M (categoryId d)))"
    by (simp add: sorted_map)
  then show ?thesis
    by (rule sorted_wrt_mono_rel[rotated]) (simp add: categoryId_key_ascending)
qed

lemma key0: "array_index ''0'' = Some 0"
  by (simp add: array_index_def is_digit_def digits_value_def decimal.simps digit_char_def)

section \<open>The handlers keep the store consistent\<close>

text \<open>
  An empty store is consistent, and every handler that writes leaves a consistent store
  consistent, also when it stops at an error halfway.
\<close>

lemma wf_empty:
  "wf_store \<lparr>doc_table = [], code_table = [], category_table = cs, doc_seq = n, code_seq = m\<rparr>"
  by (simp add: wf_store_def)

lemma list_all_mono_less: "list_all (\<lambda>x. f x < (k::nat)) xs \<Longrightarrow> list_all (\<lambda>x. f x < Suc k) xs"
  by (induction xs) auto

lemma Doc_create_wf:
  assumes "wf_store s" and "Doc_create M s a1 a2 a3 a4 a5 = Inr (r, s1)"
  shows "wf_store s1"
proof -
  from Doc_create_Inr[OF assms(2)] have r: "doc_id r = doc_seq s"
    and s1: "s1 = s\<lparr>doc_table := doc_table s @ [r], doc_seq := Suc (doc_seq s)\<rparr>"
    by (simp_all add: Doc_build_fields)
  from assms(1) have "doc_seq s \<notin> doc_id ` set (doc_table s)"
    by (auto simp: wf_store_def list_all_iff)
  with assms(1) show ?thesis
    by (simp add: s1 r wf_store_def list_all_mono_less)
qed

lemma create_codes_wf:
  assumes "wf_store s" and "k < doc_seq s" and "create_codes M s es k = (e, s')"
  shows "wf_store s'"
proof -
  from create_codes_frame[OF assms(3)] obtain new where
    f: "doc_table s' = doc_table s" "doc_seq s' = doc_seq s"
       "code_table s' = code_table s @ new" "list_all (\<lambda>c. docId c = k) new"
    by blast
  from f(4) assms(2) have "list_all (\<lambda>c. docId c < doc_seq s) new"
    by (induction new) auto
  with assms(1) f show ?thesis by (simp add: wf_store_def)
qed

lemma fetch_wf:
  assumes "wf_store s" and "k < doc_seq s" and "create_snippets_and_fetch M s codes k = (res, s')"
  shows "wf_store s'"
proof (cases "isArray codes")
  case True
  obtain e s2 where cc: "create_codes M s (elements codes) k = (e, s2)"
    by (cases "create_codes M s (elements codes) k")
  with assms(3) True have "s' = s2"
    by (auto simp: create_snippets_and_fetch_def split: option.splits)
  with create_codes_wf[OF assms(1,2) cc] show ?thesis by simp
next
  case False
  with assms(3) have "s' = s"
    by (auto simp: create_snippets_and_fetch_def split: option.splits)
  with assms(1) show ?thesis by simp
qed

lemma createDoc_wf: "wf_store s \<Longrightarrow> wf_store (snd (createDoc M s b))"
proof -
  assume wf: "wf_store s"
  let ?cr = "Doc_create M s (field b ''uiName'') (field b ''uiSubtitle'') (field b ''docs'')
               (js_or (field b ''parentId'') JNull) (field b ''categoryId'')"
  show ?thesis
  proof (cases ?cr)
    case (Inl e)
    with wf show ?thesis by (simp add: createDoc_def)
  next
    case (Inr p)
    obtain r s1 where p: "p = (r, s1)" by (cases p)
    from Doc_create_wf[OF wf Inr[unfolded p]] have w1: "wf_store s1" .
    from Doc_create_Inr[OF Inr[unfolded p]] have k: "doc_id r < doc_seq s1"
      by (simp add: Doc_build_fields)
    obtain res s' where fe: "create_snippets_and_fetch M s1 (field b ''codes'') (doc_id r) = (res, s')"
      by (cases "create_snippets_and_fetch M s1 (field b ''codes'') (doc_id r)")
    from fetch_wf[OF w1 k fe] Inr p fe show ?thesis by (simp add: createDoc_def)
  qed
qed

lemma createVariant_wf: "wf_store s \<Longrightarrow> wf_store (snd (createVariant M s k b))"
proof -
  assume wf: "wf_store s"
  let ?cr = "Doc_create M s (field b ''uiName'') (field b ''uiSubtitle'') (field b ''docs'')
               (JNum (int k)) (field b ''categoryId'')"
  show ?thesis
  proof (cases "Doc_findByPk s k")
    case None
    with wf show ?thesis by (simp add: createVariant_def)
  next
    case (Some parent)
    show ?thesis
    proof (cases ?cr)
      case (Inl e)
      with wf Some show ?thesis by (simp add: createVariant_def)
    next
      case (Inr p)
      obtain r s1 where p: "p = (r, s1)" by (cases p)
      from Doc_create_wf[OF wf Inr[unfolded p]] have w1: "wf_store s1" .
      from Doc_create_Inr[OF Inr[unfolded p]] have k: "doc_id r < doc_seq s1"
        by (simp add: Doc_build_fields)
      obtain res s' where fe: "create_snippets_and_fetch M s1 (field b ''codes'') (doc_id r) = (res, s')"
        by (cases "create_snippets_and_fetch M s1 (field b ''codes'') (doc_id r)")
      from fetch_wf[OF w1 k fe] Inr p fe Some show ?thesis by (simp add: createVariant_def)
    qed
  qed
qed

lemma update_keeps_ids:
  "map doc_id (map (\<lambda>x. if c x then x\<lparr>uiName := a1, uiSubtitle := a2, docs := a3,
                                        categoryId := a4\<rparr> else x) xs) = map doc_id xs"
  by (induction xs) auto

lemma updateDoc_wf: "wf_store s \<Longrightarrow> wf_store (snd (updateDoc M s k b))"
proof -
  assume wf: "wf_store s"
  show ?thesis
  proof (cases "Doc_findByPk s k")
    case None
    with wf show ?thesis by (simp add: updateDoc_def)
  next
    case (Some d)
    let ?u = "Doc_update M s d (field b ''uiName'') (field b ''uiSubtitle'') (field b ''docs'')
                (field b ''categoryId'')"
    show ?thesis
    proof (cases ?u)
      case (Inl e)
      with wf Some show ?thesis by (simp add: updateDoc_def)
    next
      case (Inr p)
      obtain d' s' where p: "p = (d', s')" by (cases p)
      from Inr p have s': "s' = s\<lparr>doc_table :=
                map (\<lambda>x. if doc_id x = doc_id d
                          then x\<lparr>uiName := uiName d', uiSubtitle := uiSubtitle d',
                                 docs := docs d', categoryId := categoryId d'\<rparr>
                          else x) (doc_table s)\<rparr>"
        by (auto simp: Doc_update_def Let_def split: if_splits)
      have ids: "map doc_id (doc_table s') = map doc_id (doc_table s)"
        unfolding s' by (simp add: update_keeps_ids)
      have "list_all (\<lambda>x. doc_id x < doc_seq s) (doc_table s')
          = list_all (\<lambda>k. k < doc_seq s) (map doc_id (doc_table s'))"
        by (simp add: list.pred_map o_def)
      also have "\<dots> = list_all (\<lambda>x. doc_id x < doc_seq s) (doc_table s)"
        unfolding ids by (simp add: list.pred_map o_def)
      finally have la: "list_all (\<lambda>x. doc_id x < doc_seq s) (doc_table s')"
        using wf by (simp add: wf_store_def)
      have sq: "doc_seq s' = doc_seq s" "code_table s' = code_table s"
        by (simp_all add: s')
      have di: "distinct (map doc_id (doc_table s'))"
        using wf unfolding ids by (simp add: wf_store_def)
      from wf have "list_all (\<lambda>c. docId c < doc_seq s) (code_table s)"
        by (simp add: wf_store_def)
      with di la sq have "wf_store s'"
        unfolding wf_store_def by simp
      with Inr p Some show ?thesis by (simp add: updateDoc_def)
    qed
  qed
qed

section \<open>Routing of the grouped-slug listing\<close>

text \<open>
  C2. The claim: GET /unique-slugs is dispatched to the grouped-slug listing
  (\<open>getUniqueSlugsGrouped\<close>), no other route captures it and the bound handler exists.
  The code: the route file binds the name \<open>getUniqueSlugs\<close>, which the controller
  does not export, so registering the route throws and the module exports no router;
  and were the name bound to the grouped listing, the route \<open>/:id\<close> registered before
  it captures the request, which reaches \<open>getDocById\<close>.
\<close>

theorem unique_slugs_route_unreachable:
  "destructure module_exports ''getUniqueSlugs'' = None
   \<and> docRoutes module_exports
       = Inl (Error ''Route.get() requires a callback function but got a [object Undefined]'')
   \<and> (\<exists>stack. docRoutes (''getUniqueSlugs'' # module_exports) = Inr stack
         \<and> dispatch stack GET [''unique-slugs''] = Some ''getDocById'')"
  by (simp add: docRoutes_def route_statements_def module_exports_def destructure_def
      router_add_def)

section \<open>Creating docs and variants\<close>

text \<open>
  C3. In a consistent store, when \<open>createDoc\<close> answers 201, \<open>getDocById\<close> on the key of
  the returned doc, run on the store \<open>createDoc\<close> left, answers 200 with a doc whose
  \<open>uiName\<close>, \<open>uiSubtitle\<close>, \<open>docs\<close> and \<open>categoryId\<close> are the values of the request (an
  absent one reads back as \<open>null\<close>), and whose codes are, in order, one per entry of the
  request's \<open>codes\<close>, with that entry's \<open>language\<close> and \<open>code\<close>.
\<close>

theorem create_then_get:
  assumes "wf_store s" and "createDoc M s b = (Response 201 r, s')"
  shows "\<exists>d f. r = DocWithCodes d
           \<and> getDocById s' (doc_id (d_doc d)) = Response 200 (FullDoc f)
           \<and> uiName (f_doc f) = stored (field b ''uiName'')
           \<and> uiSubtitle (f_doc f) = stored (field b ''uiSubtitle'')
           \<and> docs (f_doc f) = stored (field b ''docs'')
           \<and> categoryId (f_doc f) = stored (field b ''categoryId'')
           \<and> map (\<lambda>c. (language c, code c)) (f_codes f)
               = map (\<lambda>e. (stored (get_prop e ''language''), stored (get_prop e ''code'')))
                   (elements (field b ''codes''))"
proof -
  let ?cr = "Doc_create M s (field b ''uiName'') (field b ''uiSubtitle'') (field b ''docs'')
               (js_or (field b ''parentId'') JNull) (field b ''categoryId'')"
  from assms(2) obtain row s1 where cr: "?cr = Inr (row, s1)"
    and fe: "create_snippets_and_fetch M s1 (field b ''codes'') (doc_id row) = (Response 201 r, s')"
    by (cases ?cr) (auto simp: createDoc_def Let_def)
  from fetch_after_create[OF assms(1) cr fe] obtain new where
    new: "r = DocWithCodes \<lparr>d_doc = row, d_codes = new, d_category = category_attrs s' row\<rparr>"
      "codes_of s' row = new" "Doc_findByPk s' (doc_id row) = Some row"
      "map (\<lambda>c. (language c, code c)) new
               = map (\<lambda>e. (stored (get_prop e ''language''), stored (get_prop e ''code'')))
                   (elements (field b ''codes''))"
    by blast
  from Doc_create_Inr[OF cr] have row: "row = Doc_build M s (field b ''uiName'')
     (field b ''uiSubtitle'') (field b ''docs'') (js_or (field b ''parentId'') JNull)
     (field b ''categoryId'')"
    by simp
  have "getDocById s' (doc_id row) = Response 200 (FullDoc (with_variants s' row))"
    using new(3) by (simp add: getDocById_def)
  then show ?thesis
    using new row by (simp add: with_variants_def Doc_build_fields)
qed

theorem create_then_get_witness:
  "\<exists>r s'. wf_store example_store
     \<and> createDoc example_models example_store example_body = (Response 201 r, s')
     \<and> (\<exists>d f. r = DocWithCodes d
           \<and> getDocById s' (doc_id (d_doc d)) = Response 200 (FullDoc f)
           \<and> uiName (f_doc f) = JStr ''Badge''
           \<and> uiSubtitle (f_doc f) = JStr ''Small''
           \<and> docs (f_doc f) = JStr ''text''
           \<and> categoryId (f_doc f) = JNum 2
           \<and> map (\<lambda>c. (language c, code c)) (f_codes f)
               = [(JStr ''jsx'', JStr ''x''), (JStr ''css'', JStr ''y'')])"
proof -
  obtain r s' where c: "createDoc example_models example_store example_body = (Response 201 r, s')"
    using ex1 by blast
  from create_then_get[OF wf_example c] c wf_example show ?thesis
    by (simp add: field_def example_body_def stored_def)
qed

text \<open>
  C4. When the parent exists in a consistent store, \<open>createVariant\<close> builds the row \<open>r\<close>
  whose \<open>parentId\<close> is the key of the route, whatever \<open>parentId\<close> the request body
  carries. When the store accepts \<open>r\<close>, the row is appended to the doc table, and the
  answer is 201 with \<open>r\<close> itself and one code per entry of the request's \<open>codes\<close>, unless
  the loop over \<open>codes\<close> stopped at an error, which is then handed to \<open>next\<close>. When the
  store rejects \<open>r\<close>, its error is handed to \<open>next\<close> and the store is as it was.
\<close>

theorem variant_parent_forced:
  assumes wf: "wf_store s" and parent: "Doc_findByPk s k = Some p"
    and r: "r = Doc_build M s (field b ''uiName'') (field b ''uiSubtitle'') (field b ''docs'')
                  (JNum (int k)) (field b ''categoryId'')"
  shows "parentId r = JNum (int k) \<and> doc_id r = doc_seq s
    \<and> (if doc_accepted M s r
        then (\<exists>d s'. createVariant M s k b = (Response 201 (DocWithCodes d), s')
                \<and> d_doc d = r
                \<and> doc_table s' = doc_table s @ [r]
                \<and> Doc_findByPk s' (doc_id r) = Some r
                \<and> d_codes d = codes_of s' r
                \<and> map (\<lambda>c. (language c, code c)) (d_codes d)
                    = map (\<lambda>e. (stored (get_prop e ''language''), stored (get_prop e ''code'')))
                        (elements (field b ''codes'')))
             \<or> (\<exists>e s'. createVariant M s k b = (Next e, s')
                   \<and> doc_table s' = doc_table s @ [r]
                   \<and> isArray (field b ''codes'')
                   \<and> create_codes M (s\<lparr>doc_table := doc_table s @ [r], doc_seq := Suc (doc_seq s)\<rparr>)
                        (elements (field b ''codes'')) (doc_id r) = (Some e, s'))
        else createVariant M s k b = (Next SequelizeError, s))"
proof -
  let ?s1 = "s\<lparr>doc_table := doc_table s @ [r], doc_seq := Suc (doc_seq s)\<rparr>"
  let ?codes = "field b ''codes''"
  let ?cr = "Doc_create M s (field b ''uiName'') (field b ''uiSubtitle'') (field b ''docs'')
               (JNum (int k)) (field b ''categoryId'')"
  have pr: "parentId r = JNum (int k)" "doc_id r = doc_seq s"
    by (simp_all add: r Doc_build_fields stored_def)
  show ?thesis
  proof (cases "doc_accepted M s r")
    case False
    then have "?cr = Inl SequelizeError"
      by (simp add: Doc_create_def Let_def r)
    with parent have "createVariant M s k b = (Next SequelizeError, s)"
      by (simp add: createVariant_def)
    with False pr show ?thesis by simp
  next
    case True
    then have cr: "?cr = Inr (r, ?s1)"
      by (simp add: Doc_create_def Let_def r)
    with parent have cv: "createVariant M s k b = create_snippets_and_fetch M ?s1 ?codes (doc_id r)"
      by (simp add: createVariant_def)
    obtain res s' where fe: "create_snippets_and_fetch M ?s1 ?codes (doc_id r) = (res, s')"
      by (cases "create_snippets_and_fetch M ?s1 ?codes (doc_id r)")
    from fetch_keeps_docs[OF fe] have dt: "doc_table s' = doc_table s @ [r]" by simp
    show ?thesis
    proof (cases res)
      case (Next e)
      with fe have "isArray ?codes \<and> create_codes M ?s1 (elements ?codes) (doc_id r) = (Some e, s')"
        by (auto simp: create_snippets_and_fetch_def split: if_splits prod.splits option.splits)
      with cv fe Next dt True pr show ?thesis by simp
    next
      case (Response n body)
      with fe have n: "n = 201"
        by (auto simp: create_snippets_and_fetch_def split: if_splits prod.splits option.splits)
      from fetch_after_create[OF wf cr fe[unfolded Response n]] obtain new where
        new: "body = DocWithCodes \<lparr>d_doc = r, d_codes = new, d_category = category_attrs s' r\<rparr>"
          "codes_of s' r = new" "Doc_findByPk s' (doc_id r) = Some r"
          "map (\<lambda>c. (language c, code c)) new
             = map (\<lambda>e. (stored (get_prop e ''language''), stored (get_prop e ''code'')))
                 (elements ?codes)"
        by blast
      let ?d = "\<lparr>d_doc = r, d_codes = new, d_category = category_attrs s' r\<rparr>"
      have "createVariant M s k b = (Response 201 (DocWithCodes ?d), s')
                \<and> d_doc ?d = r
                \<and> doc_table s' = doc_table s @ [r]
                \<and> Doc_findByPk s' (doc_id r) = Some r
                \<and> d_codes ?d = codes_of s' r
                \<and> map (\<lambda>c. (language c, code c)) (d_codes ?d)
                    = map (\<lambda>e. (stored (get_prop e ''language''), stored (get_prop e ''code'')))
                        (elements ?codes)"
        using cv fe Response n new dt by simp
      then have "\<exists>d s'. createVariant M s k b = (Response 201 (DocWithCodes d), s')
                \<and> d_doc d = r
                \<and> doc_table s' = doc_table s @ [r]
                \<and> Doc_findByPk s' (doc_id r) = Some r
                \<and> d_codes d = codes_of s' r
                \<and> map (\<lambda>c. (language c, code c)) (d_codes d)
                    = map (\<lambda>e. (stored (get_prop e ''language''), stored (get_prop e ''code'')))
                        (elements ?codes)"
        by blast
      with True pr show ?thesis by simp
    qed
  qed
qed

theorem variant_parent_forced_witness:
  "wf_store example_store
   \<and> Doc_findByPk example_store 2 \<noteq> None
   \<and> field variant_body ''parentId'' = JNum 77
   \<and> (\<exists>d s'. createVariant example_models example_store 2 variant_body
               = (Response 201 (DocWithCodes d), s')
            \<and> parentId (d_doc d) = JNum 2
            \<and> doc_id (d_doc d) = 5
            \<and> doc_table s' = doc_table example_store @ [d_doc d]
            \<and> Doc_findByPk s' 5 = Some (d_doc d)
            \<and> map (\<lambda>c. (language c, code c)) (d_codes d) = [(JStr ''css'', JStr ''z'')])"
proof -
  let ?r = "Doc_build example_models example_store (field variant_body ''uiName'')
              (field variant_body ''uiSubtitle'') (field variant_body ''docs'')
              (JNum (int 2)) (field variant_body ''categoryId'')"
  have h: "Doc_findByPk example_store 2
      = Some \<lparr>doc_id = 2, uiName = JStr ''Card'', uiSubtitle = JNull, docs = JNull,
          uniqueSlug = ''Card'', categoryId = JNum 2, parentId = JNull\<rparr>"
    by (simp add: Doc_findByPk_def example_store_def)
  have a: "doc_accepted example_models example_store ?r"
    by (simp add: eval_defs variant_body_def)
  have e: "\<forall>e s'. createVariant example_models example_store 2 variant_body \<noteq> (Next e, s')"
    by (simp add: eval_defs variant_body_def)
  have q: "doc_seq example_store = 5"
    by (simp add: example_store_def)
  have c: "map (\<lambda>e. (stored (get_prop e ''language''), stored (get_prop e ''code'')))
             (elements (field variant_body ''codes'')) = [(JStr ''css'', JStr ''z'')]"
    by (simp add: field_def variant_body_def stored_def)
  have p: "field variant_body ''parentId'' = JNum 77"
    by (simp add: field_def variant_body_def)
  from variant_parent_forced[OF wf_example h refl, of example_models variant_body] a e
  obtain d s' where
    d: "createVariant example_models example_store 2 variant_body
          = (Response 201 (DocWithCodes d), s')"
      "d_doc d = ?r" "parentId ?r = JNum (int 2)" "doc_id ?r = doc_seq example_store"
      "doc_table s' = doc_table example_store @ [?r]"
      "Doc_findByPk s' (doc_id ?r) = Some ?r"
      "map (\<lambda>c. (language c, code c)) (d_codes d)
         = map (\<lambda>e. (stored (get_prop e ''language''), stored (get_prop e ''code'')))
             (elements (field variant_body ''codes''))"
    by auto
  have "createVariant example_models example_store 2 variant_body
               = (Response 201 (DocWithCodes d), s')
            \<and> parentId (d_doc d) = JNum 2
            \<and> doc_id (d_doc d) = 5
            \<and> doc_table s' = doc_table example_store @ [d_doc d]
            \<and> Doc_findByPk s' 5 = Some (d_doc d)
            \<and> map (\<lambda>c. (language c, code c)) (d_codes d) = [(JStr ''css'', JStr ''z'')]"
    using d q c by simp
  then have "\<exists>d s'. createVariant example_models example_store 2 variant_body
               = (Response 201 (DocWithCodes d), s')
            \<and> parentId (d_doc d) = JNum 2
            \<and> doc_id (d_doc d) = 5
            \<and> doc_table s' = doc_table example_store @ [d_doc d]
            \<and> Doc_findByPk s' 5 = Some (d_doc d)
            \<and> map (\<lambda>c. (language c, code c)) (d_codes d) = [(JStr ''css'', JStr ''z'')]"
    by (intro exI[of _ d] exI[of _ s'])
  then show ?thesis using wf_example h p by simp
qed

text \<open>
  C5. When no doc has the key of the route, \<open>createVariant\<close> answers 404 with the message
  "Parent doc not found" and leaves the store as it was: no doc row, no code row.
\<close>

theorem variant_of_missing_parent:
  assumes "Doc_findByPk s k = None"
  shows "createVariant M s k b = (Response 404 (Message ''Parent doc not found''), s)"
  using assms by (simp add: createVariant_def)

theorem variant_of_missing_parent_witness:
  "Doc_findByPk example_store 9 = None
   \<and> createVariant example_models example_store 9 example_body
       = (Response 404 (Message ''Parent doc not found''), example_store)"
proof -
  have h: "Doc_findByPk example_store 9 = None"
    by (simp add: Doc_findByPk_def example_store_def)
  from variant_of_missing_parent[OF h] h show ?thesis by simp
qed

text \<open>
  C9. When the request's \<open>codes\<close> is absent or is not an array and the store accepts the
  doc row, \<open>createDoc\<close> answers 201 with a doc that has no code, and adds no code row.
\<close>

theorem createDoc_without_codes:
  assumes "wf_store s" and "\<not> isArray (field b ''codes'')"
    and "doc_accepted M s (Doc_build M s (field b ''uiName'') (field b ''uiSubtitle'')
           (field b ''docs'') (js_or (field b ''parentId'') JNull) (field b ''categoryId''))"
  shows "\<exists>d s'. createDoc M s b = (Response 201 (DocWithCodes d), s')
           \<and> d_codes d = [] \<and> codes_of s' (d_doc d) = []
           \<and> code_table s' = code_table s \<and> doc_table s' = doc_table s @ [d_doc d]"
proof -
  let ?r = "Doc_build M s (field b ''uiName'') (field b ''uiSubtitle'')
           (field b ''docs'') (js_or (field b ''parentId'') JNull) (field b ''categoryId'')"
  let ?s1 = "s\<lparr>doc_table := doc_table s @ [?r], doc_seq := Suc (doc_seq s)\<rparr>"
  from assms(3) have cr: "Doc_create M s (field b ''uiName'') (field b ''uiSubtitle'')
           (field b ''docs'') (js_or (field b ''parentId'') JNull) (field b ''categoryId'')
           = Inr (?r, ?s1)"
    by (simp add: Doc_create_def Let_def)
  from assms(1) have "list_all (\<lambda>d. doc_id d \<noteq> doc_id ?r) (doc_table s)"
    by (simp add: wf_store_def list_all_less_neq Doc_build_fields)
  then have fnd: "Doc_findByPk ?s1 (doc_id ?r) = Some ?r"
    by (simp add: Doc_findByPk_def find_append_fresh)
  from assms(1) have co: "codes_of ?s1 ?r = []"
    by (simp add: codes_of_def wf_store_def filter_owner_fresh Doc_build_fields)
  from assms(2) fnd have "create_snippets_and_fetch M ?s1 (field b ''codes'') (doc_id ?r)
     = (Response 201 (DocWithCodes (with_codes ?s1 ?r)), ?s1)"
    by (simp add: create_snippets_and_fetch_def)
  with cr have "createDoc M s b = (Response 201 (DocWithCodes (with_codes ?s1 ?r)), ?s1)"
    by (simp add: createDoc_def Let_def)
  then show ?thesis using co by (simp add: with_codes_def)
qed

theorem createDoc_without_codes_witness:
  "wf_store example_store
   \<and> \<not> isArray (field [(''uiName'', JStr ''Tabs''), (''codes'', JStr ''jsx'')] ''codes'')
   \<and> \<not> isArray (field [(''uiName'', JStr ''Tabs'')] ''codes'')
   \<and> (\<exists>d s'. createDoc example_models example_store
                 [(''uiName'', JStr ''Tabs''), (''codes'', JStr ''jsx'')]
               = (Response 201 (DocWithCodes d), s')
            \<and> d_codes d = [] \<and> code_table s' = code_table example_store)
   \<and> (\<exists>d s'. createDoc example_models example_store [(''uiName'', JStr ''Tabs'')]
               = (Response 201 (DocWithCodes d), s')
            \<and> d_codes d = [] \<and> code_table s' = code_table example_store)"
proof -
  have a: "\<not> isArray (field [(''uiName'', JStr ''Tabs''), (''codes'', JStr ''jsx'')] ''codes'')"
    and b: "\<not> isArray (field [(''uiName'', JStr ''Tabs'')] ''codes'')"
    by (simp_all add: field_def)
  have acc: "doc_accepted example_models example_store
      (Doc_build example_models example_store
         (field [(''uiName'', JStr ''Tabs''), (''codes'', JStr ''jsx'')] ''uiName'')
         (field [(''uiName'', JStr ''Tabs''), (''codes'', JStr ''jsx'')] ''uiSubtitle'')
         (field [(''uiName'', JStr ''Tabs''), (''codes'', JStr ''jsx'')] ''docs'')
         (js_or (field [(''uiName'', JStr ''Tabs''), (''codes'', JStr ''jsx'')] ''parentId'') JNull)
         (field [(''uiName'', JStr ''Tabs''), (''codes'', JStr ''jsx'')] ''categoryId''))"
    by (simp add: eval_defs)
  have acc': "doc_accepted example_models example_store
      (Doc_build example_models example_store
         (field [(''uiName'', JStr ''Tabs'')] ''uiName'')
         (field [(''uiName'', JStr ''Tabs'')] ''uiSubtitle'')
         (field [(''uiName'', JStr ''Tabs'')] ''docs'')
         (js_or (field [(''uiName'', JStr ''Tabs'')] ''parentId'') JNull)
         (field [(''uiName'', JStr ''Tabs'')] ''categoryId''))"
    by (simp add: eval_defs)
  from createDoc_without_codes[OF wf_example a acc]
       createDoc_without_codes[OF wf_example b acc'] a b wf_example
  show ?thesis by blast
qed

section \<open>Updating a doc\<close>

text \<open>
  C7. For an existing doc, \<open>updateDoc\<close> leaves the key, the \<open>parentId\<close> and the
  \<open>uniqueSlug\<close> of every doc row, and the code table, as they were, whatever the request
  body holds; the doc it answers with differs from the stored one only in \<open>uiName\<close>,
  \<open>uiSubtitle\<close>, \<open>docs\<close> and \<open>categoryId\<close>, each replaced when the request gives it.
\<close>

theorem update_keeps_parent_and_slug:
  assumes "Doc_findByPk s k = Some d"
  shows "map (\<lambda>d. (doc_id d, parentId d, uniqueSlug d)) (doc_table (snd (updateDoc M s k b)))
           = map (\<lambda>d. (doc_id d, parentId d, uniqueSlug d)) (doc_table s)
         \<and> code_table (snd (updateDoc M s k b)) = code_table s
         \<and> (updateDoc M s k b = (Next SequelizeError, s)
            \<or> (\<exists>d'. fst (updateDoc M s k b) = Response 200 (DocJson d')
                  \<and> doc_id d' = doc_id d \<and> parentId d' = parentId d
                  \<and> uniqueSlug d' = uniqueSlug d
                  \<and> uiName d' = assign (uiName d) (field b ''uiName'')
                  \<and> uiSubtitle d' = assign (uiSubtitle d) (field b ''uiSubtitle'')
                  \<and> docs d' = assign (docs d) (field b ''docs'')
                  \<and> categoryId d' = assign (categoryId d) (field b ''categoryId'')))"
proof (cases "Doc_update M s d (field b ''uiName'') (field b ''uiSubtitle'') (field b ''docs'')
                (field b ''categoryId'')")
  case (Inl e)
  then have "e = SequelizeError" by (auto simp: Doc_update_def Let_def split: if_splits)
  with Inl assms show ?thesis by (simp add: updateDoc_def)
next
  case (Inr p)
  obtain d' s' where p: "p = (d', s')" by (cases p)
  from Inr p assms have u: "updateDoc M s k b = (Response 200 (DocJson d'), s')"
    by (simp add: updateDoc_def)
  from Doc_update_frame[OF Inr[unfolded p]] u show ?thesis by simp
qed

theorem update_keeps_parent_and_slug_witness:
  "Doc_findByPk example_store 4 \<noteq> None
   \<and> map (\<lambda>d. (doc_id d, parentId d, uniqueSlug d))
        (doc_table (snd (updateDoc example_models example_store 4
           [(''uiName'', JStr ''Z''), (''parentId'', JNum 2), (''uniqueSlug'', JStr ''z'')])))
       = [(1, JNull, ''Button''), (2, JNull, ''Card''), (3, JNull, ''Misc''), (4, JNum 1, ''Ghost'')]
   \<and> (\<exists>d'. fst (updateDoc example_models example_store 4
           [(''uiName'', JStr ''Z''), (''parentId'', JNum 2), (''uniqueSlug'', JStr ''z'')])
          = Response 200 (DocJson d') \<and> parentId d' = JNum 1 \<and> uniqueSlug d' = ''Ghost''
          \<and> uiName d' = JStr ''Z'')"
proof -
  let ?b = "[(''uiName'', JStr ''Z''), (''parentId'', JNum 2), (''uniqueSlug'', JStr ''z'')]"
  let ?d = "\<lparr>doc_id = 4, uiName = JStr ''Ghost'', uiSubtitle = JNull, docs = JNull,
          uniqueSlug = ''Ghost'', categoryId = JNum 1, parentId = JNum 1\<rparr>"
  have h: "Doc_findByPk example_store 4 = Some ?d"
    by (simp add: Doc_findByPk_def example_store_def)
  have ua: "\<And>r. categoryId r = JNum 1 \<Longrightarrow> update_accepted example_models example_store r"
    by (simp add: example_models_def refers_to_category_def example_store_def)
  have e: "updateDoc example_models example_store 4 ?b \<noteq> (Next SequelizeError, example_store)"
    by (simp add: updateDoc_def h Doc_update_def Let_def field_def assign_def ua)
  have t: "map (\<lambda>d. (doc_id d, parentId d, uniqueSlug d)) (doc_table example_store)
       = [(1, JNull, ''Button''), (2, JNull, ''Card''), (3, JNull, ''Misc''), (4, JNum 1, ''Ghost'')]"
    by (simp add: example_store_def)
  have f: "assign (uiName ?d) (field ?b ''uiName'') = JStr ''Z''"
    by (simp add: assign_def field_def)
  note u = update_keeps_parent_and_slug[OF h, of example_models ?b]
  from u have "map (\<lambda>d. (doc_id d, parentId d, uniqueSlug d))
        (doc_table (snd (updateDoc example_models example_store 4 ?b)))
       = [(1, JNull, ''Button''), (2, JNull, ''Card''), (3, JNull, ''Misc''), (4, JNum 1, ''Ghost'')]"
    using t by simp
  moreover from u e f have "\<exists>d'. fst (updateDoc example_models example_store 4 ?b)
          = Response 200 (DocJson d') \<and> parentId d' = JNum 1 \<and> uniqueSlug d' = ''Ghost''
          \<and> uiName d' = JStr ''Z''"
    by auto
  ultimately show ?thesis using h by simp
qed

section \<open>The parent of a created doc\<close>

text \<open>
  C10. \<open>createDoc\<close> stores \<open>parentId || null\<close> and looks no parent up. Whenever the store
  accepts the row, the row it adds has the request's \<open>parentId\<close> when that value is truthy
  and \<open>null\<close> otherwise (so \<open>0\<close> becomes \<open>null\<close>); when the store rejects the row, its error
  is handed to \<open>next\<close> and no row is added. So a \<open>parentId\<close> that refers to no doc is
  refused by the store alone, where \<open>createVariant\<close> answers 404 before any write.
\<close>

theorem createDoc_parentId:
  "(doc_accepted M s (Doc_build M s (field b ''uiName'') (field b ''uiSubtitle'')
        (field b ''docs'') (js_or (field b ''parentId'') JNull) (field b ''categoryId''))
     \<longrightarrow> (\<exists>row. doc_table (snd (createDoc M s b)) = doc_table s @ [row]
           \<and> doc_id row = doc_seq s
           \<and> parentId row
               = (if truthy (field b ''parentId'') then field b ''parentId'' else JNull)))
   \<and> (\<not> doc_accepted M s (Doc_build M s (field b ''uiName'') (field b ''uiSubtitle'')
        (field b ''docs'') (js_or (field b ''parentId'') JNull) (field b ''categoryId''))
     \<longrightarrow> createDoc M s b = (Next SequelizeError, s))
   \<and> (Doc_findByPk s k = None
     \<longrightarrow> createVariant M s k b = (Response 404 (Message ''Parent doc not found''), s))"
proof (intro conjI impI)
  let ?r = "Doc_build M s (field b ''uiName'') (field b ''uiSubtitle'')
        (field b ''docs'') (js_or (field b ''parentId'') JNull) (field b ''categoryId'')"
  let ?s1 = "s\<lparr>doc_table := doc_table s @ [?r], doc_seq := Suc (doc_seq s)\<rparr>"
  assume "doc_accepted M s ?r"
  then have cr: "createDoc M s b = create_snippets_and_fetch M ?s1 (field b ''codes'') (doc_id ?r)"
    by (simp add: createDoc_def Doc_create_def Let_def)
  obtain res s' where fe: "create_snippets_and_fetch M ?s1 (field b ''codes'') (doc_id ?r) = (res, s')"
    by (cases "create_snippets_and_fetch M ?s1 (field b ''codes'') (doc_id ?r)")
  from fetch_keeps_docs[OF fe] cr fe
  have "doc_table (snd (createDoc M s b)) = doc_table s @ [?r]" by simp
  then show "\<exists>row. doc_table (snd (createDoc M s b)) = doc_table s @ [row]
           \<and> doc_id row = doc_seq s
           \<and> parentId row
               = (if truthy (field b ''parentId'') then field b ''parentId'' else JNull)"
    by (intro exI[of _ ?r]) (simp add: Doc_build_fields stored_js_or)
next
  assume "\<not> doc_accepted M s (Doc_build M s (field b ''uiName'') (field b ''uiSubtitle'')
        (field b ''docs'') (js_or (field b ''parentId'') JNull) (field b ''categoryId''))"
  then show "createDoc M s b = (Next SequelizeError, s)"
    by (simp add: createDoc_def Doc_create_def Let_def)
next
  assume "Doc_findByPk s k = None"
  then show "createVariant M s k b = (Response 404 (Message ''Parent doc not found''), s)"
    by (simp add: createVariant_def)
qed

theorem createDoc_parentId_witness:
  "doc_accepted example_models example_store
     (Doc_build example_models example_store (field example_body ''uiName'')
        (field example_body ''uiSubtitle'') (field example_body ''docs'')
        (js_or (field example_body ''parentId'') JNull) (field example_body ''categoryId''))
   \<and> field example_body ''parentId'' = JNum 0
   \<and> (\<exists>row. doc_table (snd (createDoc example_models example_store example_body))
               = doc_table example_store @ [row]
           \<and> doc_id row = 5 \<and> parentId row = JNull)
   \<and> \<not> doc_accepted example_models example_store
     (Doc_build example_models example_store (field dangling_body ''uiName'')
        (field dangling_body ''uiSubtitle'') (field dangling_body ''docs'')
        (js_or (field dangling_body ''parentId'') JNull) (field dangling_body ''categoryId''))
   \<and> createDoc example_models example_store dangling_body = (Next SequelizeError, example_store)
   \<and> Doc_findByPk example_store 7 = None
   \<and> createVariant example_models example_store 7 dangling_body
       = (Response 404 (Message ''Parent doc not found''), example_store)"
proof -
  have a: "doc_accepted example_models example_store
     (Doc_build example_models example_store (field example_body ''uiName'')
        (field example_body ''uiSubtitle'') (field example_body ''docs'')
        (js_or (field example_body ''parentId'') JNull) (field example_body ''categoryId''))"
    by (simp add: eval_defs)
  have n: "\<not> doc_accepted example_models example_store
     (Doc_build example_models example_store (field dangling_body ''uiName'')
        (field dangling_body ''uiSubtitle'') (field dangling_body ''docs'')
        (js_or (field dangling_body ''parentId'') JNull) (field dangling_body ''categoryId''))"
    by (simp add: eval_defs dangling_body_def)
  have p: "field example_body ''parentId'' = JNum 0"
    by (simp add: field_def example_body_def)
  have q: "doc_seq example_store = 5"
    by (simp add: example_store_def)
  have m: "Doc_findByPk example_store 7 = None"
    by (simp add: Doc_findByPk_def example_store_def)
  from createDoc_parentId[of example_models example_store example_body 7] a p q
  have "\<exists>row. doc_table (snd (createDoc example_models example_store example_body))
               = doc_table example_store @ [row]
           \<and> doc_id row = 5 \<and> parentId row = JNull"
    by simp
  moreover from createDoc_parentId[of example_models example_store dangling_body 7] n m
  have "createDoc example_models example_store dangling_body = (Next SequelizeError, example_store)
    \<and> createVariant example_models example_store 7 dangling_body
       = (Response 404 (Message ''Parent doc not found''), example_store)"
    by simp
  ultimately show ?thesis using a n p m by simp
qed

text \<open>
  The claim as it was made says that \<open>createDoc\<close> can create a variant whose \<open>parentId\<close>
  refers to no doc. The example store holds no doc 7 and enforces the reference from a
  variant to its parent: the request with \<open>parentId\<close> 7 is rejected and nothing is created.
\<close>

theorem createDoc_dangling_parent_rejected:
  "Doc_findByPk example_store 7 = None
   \<and> field dangling_body ''parentId'' = JNum 7
   \<and> createDoc example_models example_store dangling_body = (Next SequelizeError, example_store)"
  by (simp add: eval_defs dangling_body_def)

section \<open>The listings\<close>

text \<open>
  C8. \<open>getDocs\<close> answers 200 with one entry per doc whose \<open>parentId\<close> is \<open>null\<close>, no more
  and no fewer (no limit), in ascending key order; each entry carries the doc, its code
  rows, the \<open>categoryName\<close> and \<open>slug\<close> of its category, and its variants, each with its
  own code rows.
\<close>

theorem main_docs_listing:
  "\<exists>ds. getDocs s = Response 200 (FullDocs (map (with_variants s) ds))
     \<and> mset ds = mset (filter (\<lambda>d. parentId d = JNull) (doc_table s))
     \<and> sorted (map doc_id ds)
     \<and> (\<forall>d \<in> set ds.
           f_doc (with_variants s d) = d
           \<and> f_codes (with_variants s d) = filter (\<lambda>c. docId c = doc_id d) (code_table s)
           \<and> f_category (with_variants s d)
               = map_option (\<lambda>c. (categoryName c, slug c)) (category_of s d)
           \<and> f_uiVariants (with_variants s d)
               = map (\<lambda>v. \<lparr>v_doc = v, v_codes = filter (\<lambda>c. docId c = doc_id v) (code_table s)\<rparr>)
                   (filter (\<lambda>v. ref (parentId v) = Some (doc_id d)) (doc_table s)))"
proof -
  let ?ds = "Doc_findAll s (\<lambda>d. parentId d = JNull) doc_id"
  have "getDocs s = Response 200 (FullDocs (map (with_variants s) ?ds))"
    by (simp add: getDocs_def)
  moreover have "mset ?ds = mset (filter (\<lambda>d. parentId d = JNull) (doc_table s))"
    by (rule findAll_mset)
  moreover have "sorted (map doc_id ?ds)"
    by (rule findAll_sorted)
  moreover have "\<forall>d \<in> set ?ds.
           f_doc (with_variants s d) = d
           \<and> f_codes (with_variants s d) = filter (\<lambda>c. docId c = doc_id d) (code_table s)
           \<and> f_category (with_variants s d)
               = map_option (\<lambda>c. (categoryName c, slug c)) (category_of s d)
           \<and> f_uiVariants (with_variants s d)
               = map (\<lambda>v. \<lparr>v_doc = v, v_codes = filter (\<lambda>c. docId c = doc_id v) (code_table s)\<rparr>)
                   (filter (\<lambda>v. ref (parentId v) = Some (doc_id d)) (doc_table s))"
    by (simp add: with_variants_def codes_of_def category_attrs_def uiVariants_of_def)
  ultimately show ?thesis by blast
qed

theorem main_docs_listing_witness:
  "\<exists>ds. getDocs example_store = Response 200 (FullDocs (map (with_variants example_store) ds))
     \<and> map doc_id ds = [1, 2, 3]
     \<and> map (\<lambda>d. map code_id (f_codes (with_variants example_store d))) ds = [[1, 2], [], []]
     \<and> map (\<lambda>d. map (\<lambda>v. doc_id (v_doc v)) (f_uiVariants (with_variants example_store d))) ds
         = [[4], [], []]"
proof -
  let ?s = example_store
  from main_docs_listing[of ?s] obtain ds where
    g: "getDocs ?s = Response 200 (FullDocs (map (with_variants ?s) ds))"
    and m: "mset ds = mset (filter (\<lambda>d. parentId d = JNull) (doc_table ?s))"
    and o: "sorted (map doc_id ds)"
    and e: "\<forall>d \<in> set ds.
           f_codes (with_variants ?s d) = filter (\<lambda>c. docId c = doc_id d) (code_table ?s)
           \<and> f_uiVariants (with_variants ?s d)
               = map (\<lambda>v. \<lparr>v_doc = v, v_codes = filter (\<lambda>c. docId c = doc_id v) (code_table ?s)\<rparr>)
                   (filter (\<lambda>v. ref (parentId v) = Some (doc_id d)) (doc_table ?s))"
    by blast
  from m have "mset (map doc_id ds)
      = mset (map doc_id (filter (\<lambda>d. parentId d = JNull) (doc_table ?s)))"
    by (rule mset_map_cong)
  from sorted_mset_unique[OF this o] have ids: "map doc_id ds = [1, 2, 3]"
    by (simp add: example_store_def)
  have c: "map (\<lambda>d. map code_id (f_codes (with_variants ?s d))) ds
      = map (\<lambda>k. map code_id (filter (\<lambda>c. docId c = k) (code_table ?s))) (map doc_id ds)"
    using e by (simp add: o_def)
  have v: "map (\<lambda>d. map (\<lambda>v. doc_id (v_doc v)) (f_uiVariants (with_variants ?s d))) ds
      = map (\<lambda>k. map doc_id (filter (\<lambda>v. ref (parentId v) = Some k) (doc_table ?s)))
          (map doc_id ds)"
    using e by (simp add: o_def)
  have "map (\<lambda>d. map code_id (f_codes (with_variants ?s d))) ds = [[1, 2], [], []]"
    unfolding c ids by (simp add: example_store_def)
  moreover have "map (\<lambda>d. map (\<lambda>v. doc_id (v_doc v)) (f_uiVariants (with_variants ?s d))) ds
         = [[4], [], []]"
    unfolding v ids by (simp add: example_store_def)
  ultimately show ?thesis using g ids by (intro exI[of _ ds]) simp
qed

text \<open>
  C6. \<open>getUniqueSlugsWithCode\<close> answers 200 with one entry per main doc: all of them when
  the query gives no \<open>categoryId\<close> (a falsy value), and exactly those whose \<open>categoryId\<close> is
  the key when the query gives the digits of a key. The entries are in ascending
  \<open>categoryId\<close> order. Each entry's codes are the doc's code rows whose \<open>language\<close> is
  \<open>tailwind\<close>, and a doc with no such row is still listed, with an empty code list.
\<close>

theorem slugs_with_code_listing:
  "\<exists>ds. getUniqueSlugsWithCode M s q = Response 200 (SlugDocs (map (slug_code_attrs s) ds))
     \<and> mset ds = mset (filter (\<lambda>d. parentId d = JNull
                                  \<and> (truthy q \<longrightarrow> where_matches (categoryId d) q)) (doc_table s))
     \<and> (\<not> truthy q \<longrightarrow> mset ds = mset (filter (\<lambda>d. parentId d = JNull) (doc_table s)))
     \<and> (\<forall>cs. q = JStr cs \<and> cs \<noteq> [] \<and> list_all is_digit cs \<longrightarrow>
           mset ds = mset (filter (\<lambda>d. parentId d = JNull
                                        \<and> categoryId d = JNum (int (digits_value cs)))
                             (doc_table s)))
     \<and> sorted_wrt (\<lambda>x y. categoryId_ascending (nulls_first M) (categoryId x) (categoryId y)) ds
     \<and> (\<forall>d \<in> set ds.
           sv_id (slug_code_attrs s d) = doc_id d
           \<and> sv_categoryId (slug_code_attrs s d) = categoryId d
           \<and> sv_codes (slug_code_attrs s d)
               = map (\<lambda>c. (code_id c, language c, code c))
                   (filter (\<lambda>c. docId c = doc_id d \<and> language c = JStr ''tailwind'')
                      (code_table s)))
     \<and> (\<forall>d \<in> set (doc_table s).
           parentId d = JNull \<and> (truthy q \<longrightarrow> where_matches (categoryId d) q)
           \<and> filter (\<lambda>c. docId c = doc_id d \<and> language c = JStr ''tailwind'') (code_table s) = []
           \<longrightarrow> d \<in> set ds \<and> sv_codes (slug_code_attrs s d) = [])"
proof -
  let ?ds = "Doc_findAll s (condition q) (\<lambda>d. categoryId_key M (categoryId d))"
  have c: "condition q = (\<lambda>d. parentId d = JNull \<and> (truthy q \<longrightarrow> where_matches (categoryId d) q))"
    by (auto simp: condition_def fun_eq_iff)
  have t: "\<And>d. sv_codes (slug_code_attrs s d)
               = map (\<lambda>c. (code_id c, language c, code c))
                   (filter (\<lambda>c. docId c = doc_id d \<and> language c = JStr ''tailwind'')
                      (code_table s))"
    by (simp add: slug_code_attrs_def tailwind_codes_def codes_of_def conj_commute)
  have m: "mset ?ds = mset (filter (\<lambda>d. parentId d = JNull
                                  \<and> (truthy q \<longrightarrow> where_matches (categoryId d) q)) (doc_table s))"
    unfolding c by (rule findAll_mset)
  have "getUniqueSlugsWithCode M s q = Response 200 (SlugDocs (map (slug_code_attrs s) ?ds))"
    by (simp add: getUniqueSlugsWithCode_def)
  moreover note m
  moreover have "\<not> truthy q \<longrightarrow> mset ?ds = mset (filter (\<lambda>d. parentId d = JNull) (doc_table s))"
    using m by simp
  moreover have "\<forall>cs. q = JStr cs \<and> cs \<noteq> [] \<and> list_all is_digit cs \<longrightarrow>
           mset ?ds = mset (filter (\<lambda>d. parentId d = JNull
                                        \<and> categoryId d = JNum (int (digits_value cs)))
                             (doc_table s))"
    using m by auto
  moreover have "sorted_wrt (\<lambda>x y. categoryId_ascending (nulls_first M) (categoryId x)
      (categoryId y)) ?ds"
    by (rule findAll_categoryId_ascending)
  moreover have "\<forall>d \<in> set ?ds.
           sv_id (slug_code_attrs s d) = doc_id d
           \<and> sv_categoryId (slug_code_attrs s d) = categoryId d
           \<and> sv_codes (slug_code_attrs s d)
               = map (\<lambda>c. (code_id c, language c, code c))
                   (filter (\<lambda>c. docId c = doc_id d \<and> language c = JStr ''tailwind'')
                      (code_table s))"
    using t by (simp add: slug_code_attrs_def)
  moreover have "\<forall>d \<in> set (doc_table s).
           parentId d = JNull \<and> (truthy q \<longrightarrow> where_matches (categoryId d) q)
           \<and> filter (\<lambda>c. docId c = doc_id d \<and> language c = JStr ''tailwind'') (code_table s) = []
           \<longrightarrow> d \<in> set ?ds \<and> sv_codes (slug_code_attrs s d) = []"
    using t by (simp add: findAll_set c)
  ultimately show ?thesis by (intro exI[of _ ?ds] conjI)
qed

theorem slugs_with_code_listing_witness:
  "(\<exists>ds. getUniqueSlugsWithCode example_models example_store JUndefined
          = Response 200 (SlugDocs (map (slug_code_attrs example_store) ds))
      \<and> map doc_id ds = [3, 1, 2]
      \<and> map categoryId ds = [JNull, JNum 1, JNum 2]
      \<and> map (\<lambda>d. map fst (sv_codes (slug_code_attrs example_store d))) ds = [[], [2], []])
   \<and> truthy (JStr ''2'')
   \<and> (\<exists>ds. getUniqueSlugsWithCode example_models example_store (JStr ''2'')
          = Response 200 (SlugDocs (map (slug_code_attrs example_store) ds))
      \<and> map doc_id ds = [2]
      \<and> map categoryId ds = [JNum 2]
      \<and> map (\<lambda>d. map fst (sv_codes (slug_code_attrs example_store d))) ds = [[]])"
proof -
  let ?s = example_store and ?M = example_models
  let ?d1 = "\<lparr>doc_id = 1, uiName = JStr ''Button'', uiSubtitle = JNull, docs = JNull,
          uniqueSlug = ''Button'', categoryId = JNum 1, parentId = JNull\<rparr>"
  let ?d2 = "\<lparr>doc_id = 2, uiName = JStr ''Card'', uiSubtitle = JNull, docs = JNull,
          uniqueSlug = ''Card'', categoryId = JNum 2, parentId = JNull\<rparr>"
  let ?d3 = "\<lparr>doc_id = 3, uiName = JStr ''Misc'', uiSubtitle = JNull, docs = JNull,
          uniqueSlug = ''Misc'', categoryId = JNull, parentId = JNull\<rparr>"
  have inj: "\<And>xs ys. map (slug_code_attrs ?s) xs = map (slug_code_attrs ?s) ys
      \<Longrightarrow> map doc_id xs = map doc_id ys \<and> map categoryId xs = map categoryId ys"
  proof -
    fix xs ys assume e: "map (slug_code_attrs ?s) xs = map (slug_code_attrs ?s) ys"
    from arg_cong[OF e, of "map sv_id"] have "map doc_id xs = map doc_id ys"
      by (simp add: o_def slug_code_attrs_def)
    moreover from arg_cong[OF e, of "map sv_categoryId"] have "map categoryId xs = map categoryId ys"
      by (simp add: o_def slug_code_attrs_def)
    ultimately show "map doc_id xs = map doc_id ys \<and> map categoryId xs = map categoryId ys" ..
  qed
  have all: "Doc_findAll ?s (condition JUndefined) (\<lambda>d. categoryId_key ?M (categoryId d))
      = [?d3, ?d1, ?d2]"
    by (simp add: Doc_findAll_def condition_def example_store_def example_models_def null_rank_def)
  have two: "Doc_findAll ?s (condition (JStr ''2'')) (\<lambda>d. categoryId_key ?M (categoryId d))
      = [?d2]"
    by (simp add: Doc_findAll_def condition_def example_store_def example_models_def null_rank_def
        is_digit_def digits_value_def)
  have tw: "\<And>k. filter (\<lambda>c. docId c = k \<and> language c = JStr ''tailwind'') (code_table ?s)
      = (if k = 1 then [\<lparr>code_id = 2, language = JStr ''tailwind'', code = JStr ''b'', docId = 1\<rparr>]
         else [])"
    by (simp add: example_store_def)
  from slugs_with_code_listing[of ?M ?s JUndefined] obtain ds where
    a: "getUniqueSlugsWithCode ?M ?s JUndefined = Response 200 (SlugDocs (map (slug_code_attrs ?s) ds))"
    and ac: "\<forall>d \<in> set ds. sv_codes (slug_code_attrs ?s d)
               = map (\<lambda>c. (code_id c, language c, code c))
                   (filter (\<lambda>c. docId c = doc_id d \<and> language c = JStr ''tailwind'')
                      (code_table ?s))"
    by (elim exE conjE) (rule that, assumption, simp)
  from a have "map (slug_code_attrs ?s) ds = map (slug_code_attrs ?s) [?d3, ?d1, ?d2]"
    by (simp add: getUniqueSlugsWithCode_def all)
  from inj[OF this] have ai: "map doc_id ds = [3, 1, 2]" "map categoryId ds = [JNull, JNum 1, JNum 2]"
    by simp_all
  have "map (\<lambda>d. map fst (sv_codes (slug_code_attrs ?s d))) ds
      = map (\<lambda>k. map code_id (filter (\<lambda>c. docId c = k \<and> language c = JStr ''tailwind'')
          (code_table ?s))) (map doc_id ds)"
    using ac by (simp add: o_def)
  then have acs: "map (\<lambda>d. map fst (sv_codes (slug_code_attrs ?s d))) ds = [[], [2], []]"
    unfolding ai tw by simp
  from slugs_with_code_listing[of ?M ?s "JStr ''2''"] obtain ds' where
    b: "getUniqueSlugsWithCode ?M ?s (JStr ''2'') = Response 200 (SlugDocs (map (slug_code_attrs ?s) ds'))"
    and bc: "\<forall>d \<in> set ds'. sv_codes (slug_code_attrs ?s d)
               = map (\<lambda>c. (code_id c, language c, code c))
                   (filter (\<lambda>c. docId c = doc_id d \<and> language c = JStr ''tailwind'')
                      (code_table ?s))"
    by (elim exE conjE) (rule that, assumption, simp)
  from b have "map (slug_code_attrs ?s) ds' = map (slug_code_attrs ?s) [?d2]"
    by (simp add: getUniqueSlugsWithCode_def two)
  from inj[OF this] have bi: "map doc_id ds' = [2]" "map categoryId ds' = [JNum 2]"
    by simp_all
  have "map (\<lambda>d. map fst (sv_codes (slug_code_attrs ?s d))) ds'
      = map (\<lambda>k. map code_id (filter (\<lambda>c. docId c = k \<and> language c = JStr ''tailwind'')
          (code_table ?s))) (map doc_id ds')"
    using bc by (simp add: o_def)
  then have bcs: "map (\<lambda>d. map fst (sv_codes (slug_code_attrs ?s d))) ds' = [[]]"
    unfolding bi tw by simp
  have A: "\<exists>ds. getUniqueSlugsWithCode ?M ?s JUndefined
          = Response 200 (SlugDocs (map (slug_code_attrs ?s) ds))
      \<and> map doc_id ds = [3, 1, 2]
      \<and> map categoryId ds = [JNull, JNum 1, JNum 2]
      \<and> map (\<lambda>d. map fst (sv_codes (slug_code_attrs ?s d))) ds = [[], [2], []]"
    using a ai acs by (intro exI[of _ ds]) simp
  have B: "\<exists>ds. getUniqueSlugsWithCode ?M ?s (JStr ''2'')
          = Response 200 (SlugDocs (map (slug_code_attrs ?s) ds))
      \<and> map doc_id ds = [2]
      \<and> map categoryId ds = [JNum 2]
      \<and> map (\<lambda>d. map fst (sv_codes (slug_code_attrs ?s d))) ds = [[]]"
    using b bi bcs by (intro exI[of _ ds']) simp
  from A B show ?thesis by simp
qed

text \<open>
  C1. The claim: the buckets of \<open>getUniqueSlugsGrouped\<close> come in the order in which their
  categories first occur in the list sorted by category name. The code collects the
  buckets in a plain object keyed by the category id and returns \<open>Object.values\<close> of it,
  which lists integer keys in ascending numeric order. On the example store the sorted
  list is: no category, Alpha (id 2), Zeta (id 1); the buckets returned are
  Uncategorized (key 0), Zeta (key 1), Alpha (key 2).
\<close>

theorem grouped_slugs_bucket_order:
  "map (\<lambda>v. map_option categoryName (sv_category v)) (grouped_docs example_models example_store)
     = [None, Some ''Alpha'', Some ''Zeta'']
   \<and> (\<exists>bs. getUniqueSlugsGrouped example_models example_store = Response 200 (Buckets bs)
         \<and> map (\<lambda>b. gc_categoryName (category b)) bs = [''Uncategorized'', ''Zeta'', ''Alpha'']
         \<and> map (\<lambda>b. gc_id (category b)) bs = [IdStr ''0'', IdNum 1, IdNum 2]
         \<and> map (\<lambda>b. map ch_id (children b)) bs = [[3], [1], [2]])"
proof -
  let ?zeta = "\<lparr>cat_id = 1, categoryName = ''Zeta'', slug = ''zeta''\<rparr>"
  let ?alpha = "\<lparr>cat_id = 2, categoryName = ''Alpha'', slug = ''alpha''\<rparr>"
  let ?v1 = "\<lparr>sv_id = 1, sv_uiName = JStr ''Button'', sv_uniqueSlug = ''Button'',
              sv_categoryId = JNum 1, sv_category = Some ?zeta\<rparr>"
  let ?v2 = "\<lparr>sv_id = 2, sv_uiName = JStr ''Card'', sv_uniqueSlug = ''Card'',
              sv_categoryId = JNum 2, sv_category = Some ?alpha\<rparr>"
  let ?v3 = "\<lparr>sv_id = 3, sv_uiName = JStr ''Misc'', sv_uniqueSlug = ''Misc'',
              sv_categoryId = JNull, sv_category = None\<rparr>"
  let ?c1 = "\<lparr>ch_id = 1, ch_uiName = JStr ''Button'', ch_uniqueSlug = ''Button'',
              ch_categoryId = JNum 1\<rparr>"
  let ?c2 = "\<lparr>ch_id = 2, ch_uiName = JStr ''Card'', ch_uniqueSlug = ''Card'',
              ch_categoryId = JNum 2\<rparr>"
  let ?c3 = "\<lparr>ch_id = 3, ch_uiName = JStr ''Misc'', ch_uniqueSlug = ''Misc'',
              ch_categoryId = JNull\<rparr>"
  let ?b0 = "\<lparr>category = uncategorized, children = [?c3]\<rparr>"
  let ?b1 = "\<lparr>category = \<lparr>gc_id = IdNum 1, gc_categoryName = ''Zeta'', gc_slug = ''zeta''\<rparr>,
              children = [?c1]\<rparr>"
  let ?b2 = "\<lparr>category = \<lparr>gc_id = IdNum 2, gc_categoryName = ''Alpha'', gc_slug = ''alpha''\<rparr>,
              children = [?c2]\<rparr>"
  have docs: "grouped_docs example_models example_store = [?v3, ?v2, ?v1]"
    by (simp add: grouped_docs_def Doc_findAll_def example_store_def example_models_def
        categoryName_key_def null_rank_def category_of_def slug_attrs_def)
  have s3: "group_step [] ?v3 = [(Index 0, ?b0)]"
    by (simp add: group_step_def key0 uncategorized_def obj_get_def obj_add_def obj_modify_def)
  have s2: "group_step [(Index 0, ?b0)] ?v2 = [(Index 0, ?b0), (Index 2, ?b2)]"
    by (simp add: group_step_def obj_get_def obj_add_def obj_modify_def)
  have s1: "group_step [(Index 0, ?b0), (Index 2, ?b2)] ?v1
      = [(Index 0, ?b0), (Index 2, ?b2), (Index 1, ?b1)]"
    by (simp add: group_step_def obj_get_def obj_add_def obj_modify_def)
  have grouped: "foldl group_step [] [?v3, ?v2, ?v1]
      = [(Index 0, ?b0), (Index 2, ?b2), (Index 1, ?b1)]"
    by (simp only: foldl.simps s3 s2 s1)
  have result: "Object_values [(Index 0, ?b0), (Index 2, ?b2), (Index 1, ?b1)] = [?b0, ?b1, ?b2]"
    by (simp add: Object_values_def index_entries_def name_entries_def)
  have "getUniqueSlugsGrouped example_models example_store = Response 200 (Buckets [?b0, ?b1, ?b2])"
    by (simp only: getUniqueSlugsGrouped_def Let_def docs grouped result)
  then have "\<exists>bs. getUniqueSlugsGrouped example_models example_store = Response 200 (Buckets bs)
         \<and> map (\<lambda>b. gc_categoryName (category b)) bs = [''Uncategorized'', ''Zeta'', ''Alpha'']
         \<and> map (\<lambda>b. gc_id (category b)) bs = [IdStr ''0'', IdNum 1, IdNum 2]
         \<and> map (\<lambda>b. map ch_id (children b)) bs = [[3], [1], [2]]"
    by (intro exI[of _ "[?b0, ?b1, ?b2]"]) (simp add: uncategorized_def)
  moreover have "map (\<lambda>v. map_option categoryName (sv_category v))
      (grouped_docs example_models example_store) = [None, Some ''Alpha'', Some ''Zeta'']"
    by (simp add: docs)
  ultimately show ?thesis by simp
qed

end
